theory Spec2Isabelle
  imports Complex_Main "HOL-Library.Char_ord" "HOL-Library.List_Lexorder" "HOL-Library.Log_Nat"
begin

section \<open>Python values: errors, strings, numbers\<close>

text \<open>
  The exceptions that the modelled code can raise. A function that may raise returns
  \<open>error + 'a\<close>, with \<open>Inl\<close> for the exception.
\<close>

datatype error =
    URLError
  | EmptyDataError
  | KeyError string
  | ValueError string
  | ZeroDivisionError

text \<open>
  A Python \<open>str\<close> is modelled by its UTF-8 bytes. The keywords that the code looks for
  are ASCII, and an ASCII byte never occurs inside a multi-byte sequence, so the
  substring tests agree with those on code points. \<open>lower\<close> maps the ASCII letters
  \<open>A\<close>..\<open>Z\<close> and leaves every other byte as it is: the case mapping of non-ASCII code
  points is not modelled.
\<close>

definition lower_char :: "char \<Rightarrow> char" where
  "lower_char c =
     (let n = (of_char c :: nat) in if 65 \<le> n \<and> n \<le> 90 then char_of (n + 32) else c)"

definition lower :: "string \<Rightarrow> string" where
  "lower s = map lower_char s"

text \<open>\<open>is_in t s\<close> is Python's \<open>t in s\<close> on strings: \<open>t\<close> occurs in \<open>s\<close> as a substring.\<close>

fun starts_with :: "string \<Rightarrow> string \<Rightarrow> bool" where
  "starts_with s [] = True"
| "starts_with [] (c # t) = False"
| "starts_with (d # s) (c # t) = (d = c \<and> starts_with s t)"

fun is_in :: "string \<Rightarrow> string \<Rightarrow> bool" where
  "is_in t [] = (t = [])"
| "is_in t (d # s) = (starts_with (d # s) t \<or> is_in t s)"

text \<open>\<open>any_in ts s\<close> is \<open>any(term in s for term in ts)\<close>.\<close>

fun any_in :: "string list \<Rightarrow> string \<Rightarrow> bool" where
  "any_in [] s = False"
| "any_in (t # ts) s = (is_in t s \<or> any_in ts s)"

text \<open>Decimal digits of a natural number and of an integer, as \<open>str\<close> prints them.\<close>

definition digit :: "nat \<Rightarrow> char" where
  "digit d = char_of (48 + d)"

fun str_nat :: "nat \<Rightarrow> string" where
  "str_nat n = (if n < 10 then [digit n] else str_nat (n div 10) @ [digit (n mod 10)])"

declare str_nat.simps [simp del]

definition str_int :: "int \<Rightarrow> string" where
  "str_int i = (if i < 0 then CHR ''-'' # str_nat (nat (- i)) else str_nat (nat i))"

text \<open>
  A float (binary64) is modelled by the rational that is its exact value, or \<open>None\<close>
  for NaN. \<open>float_round\<close> is the rounding that IEEE arithmetic applies to the exact
  result of an operation: to the nearest float, a tie going to the even significand of
  53 bits; \<open>exponent x\<close> is the integer \<open>e\<close> with \<open>2 ^ e \<le> x < 2 ^ (e + 1)\<close>, and below
  \<open>2 ^ -1022\<close> the spacing of the subnormal numbers applies. Overflow to infinity is not
  modelled. The cells of the columns \<open>Age\<close> and \<open>Fare\<close> are floats: \<open>read_csv\<close> yields the
  float nearest to the decimal of the file.
\<close>

type_synonym float = "rat option"

definition round_half_even :: "rat \<Rightarrow> int" where
  "round_half_even x =
     (let n = \<lfloor>x\<rfloor>; f = x - of_int n
      in if f < 1 / 2 then n else if 1 / 2 < f then n + 1
         else if even n then n else n + 1)"

definition exponent :: "rat \<Rightarrow> int" where
  "exponent x = (if 1 \<le> x then bitlen \<lfloor>x\<rfloor> - 1 else - bitlen (\<lceil>1 / x\<rceil> - 1))"

definition float_round :: "rat \<Rightarrow> rat" where
  "float_round x =
     (if x = 0 then 0
      else (let u = 2 powi (max (exponent \<bar>x\<bar>) (- 1022) - 52)
            in sgn x * (of_int (round_half_even (\<bar>x\<bar> / u)) * u)))"

text \<open>The conversion of an integer to a float, as the division of two integers does it.\<close>

definition float_of_int :: "int \<Rightarrow> rat" where
  "float_of_int i = float_round (of_int i)"

text \<open>
  \<open>format_fixed k x\<close> is the format specification \<open>.kf\<close> of a float: \<open>k\<close> digits after the
  point, the decimal of that form nearest to the exact value of the float, a tie going
  to the even last digit.
\<close>

definition pad_zeros :: "nat \<Rightarrow> string \<Rightarrow> string" where
  "pad_zeros k s = replicate (k - length s) (CHR ''0'') @ s"

definition format_fixed :: "nat \<Rightarrow> float \<Rightarrow> string" where
  "format_fixed k v =
     (case v of
        None \<Rightarrow> ''nan''
      | Some x \<Rightarrow>
          (let r = nat (round_half_even (\<bar>x\<bar> * 10 ^ k));
               body = str_nat (r div 10 ^ k) @
                      (if k = 0 then [] else CHR ''.'' # pad_zeros k (str_nat (r mod 10 ^ k)))
           in if x < 0 then CHR ''-'' # body else body))"

text \<open>
  What a printed number is: \<open>decimal s n\<close> holds when \<open>s\<close> is the decimal numeral of \<open>n\<close>,
  made of digits only and without a leading zero.
\<close>

definition is_digit :: "char \<Rightarrow> bool" where
  "is_digit c \<longleftrightarrow> 48 \<le> (of_char c :: nat) \<and> (of_char c :: nat) \<le> 57"

definition digit_value :: "char \<Rightarrow> nat" where
  "digit_value c = of_char c - 48"

definition decimal_value :: "string \<Rightarrow> nat" where
  "decimal_value s = foldl (\<lambda>a c. 10 * a + digit_value c) 0 s"

definition decimal :: "string \<Rightarrow> nat \<Rightarrow> bool" where
  "decimal s n \<longleftrightarrow>
     s \<noteq> [] \<and> list_all is_digit s \<and> decimal_value s = n \<and> (s = ''0'' \<or> hd s \<noteq> CHR ''0'')"

definition fmul :: "float \<Rightarrow> rat \<Rightarrow> float" where
  "fmul v c = (case v of None \<Rightarrow> None | Some x \<Rightarrow> Some (x * c))"

section \<open>The data frame\<close>

text \<open>
  One row of the CSV file, with the columns that the program reads. \<open>Age\<close>, \<open>Fare\<close> and
  \<open>Embarked\<close> can be missing (NaN) in the file. A row of the processed frame has the
  two derived columns as well; a category that \<open>pd.cut\<close> or \<open>pd.qcut\<close> does not
  assign is NaN, here \<open>None\<close>. A frame is the list of its rows, in the order of the
  file; the responder and the builder read only these columns, and a frame is taken to
  have all of them.
\<close>

record passenger =
  Survived :: int
  Pclass :: int
  Sex :: string
  Age :: float
  Fare :: float
  Embarked :: "string option"

record row = passenger +
  AgeGroup :: "string option"
  FareCategory :: "string option"

type_synonym dataframe = "row list"

subsection \<open>Aggregations of pandas\<close>

text \<open>\<open>dropna\<close> keeps the values that are present.\<close>

fun dropna :: "'a option list \<Rightarrow> 'a list" where
  "dropna [] = []"
| "dropna (None # xs) = dropna xs"
| "dropna (Some x # xs) = x # dropna xs"

text \<open>The distinct values of a column, in the order of their first occurrence.\<close>

definition unique :: "'a list \<Rightarrow> 'a list" where
  "unique xs = rev (remdups (rev xs))"

text \<open>
  \<open>Series.value_counts()\<close>: every distinct value with the number of its occurrences,
  the most frequent first. Values with the same count keep the order of their first
  occurrence (a stable sort of the hash table's order).
\<close>

definition value_counts :: "'a list \<Rightarrow> ('a \<times> nat) list" where
  "value_counts xs =
     sort_key (\<lambda>p. - int (snd p)) (map (\<lambda>k. (k, count_list xs k)) (unique xs))"

definition sort_index :: "('k::linorder \<times> 'v) list \<Rightarrow> ('k \<times> 'v) list" where
  "sort_index s = sort_key fst s"

text \<open>\<open>get s k d\<close> is \<open>s.get(k, d)\<close> on a series or dictionary \<open>s\<close>.\<close>

definition get :: "('k \<times> 'v) list \<Rightarrow> 'k \<Rightarrow> 'v \<Rightarrow> 'v" where
  "get s k d = (case map_of s k of None \<Rightarrow> d | Some v \<Rightarrow> v)"

text \<open>
  \<open>mean\<close>, \<open>max\<close>, \<open>min\<close> and \<open>median\<close> skip NaN and are NaN on no values. The
  rounding of the float additions and divisions inside \<open>mean\<close>, \<open>median\<close> and
  \<open>quantile\<close> is not modelled: they are the exact mean, median and quantile.
\<close>

definition mean :: "float list \<Rightarrow> float" where
  "mean xs =
     (let v = dropna xs in if v = [] then None else Some (sum_list v / of_nat (length v)))"

definition max_col :: "float list \<Rightarrow> float" where
  "max_col xs = (case dropna xs of [] \<Rightarrow> None | x # v \<Rightarrow> Some (fold max v x))"

definition min_col :: "float list \<Rightarrow> float" where
  "min_col xs = (case dropna xs of [] \<Rightarrow> None | x # v \<Rightarrow> Some (fold min v x))"

definition median :: "float list \<Rightarrow> float" where
  "median xs =
     (let s = sort (dropna xs); n = length s
      in if n = 0 then None
         else if odd n then Some (s ! (n div 2))
         else Some ((s ! (n div 2 - 1) + s ! (n div 2)) / 2))"

text \<open>
  \<open>Series.mode()\<close>: the most frequent values, sorted. The program takes element 0 of
  the result.
\<close>

definition mode :: "'a::linorder list \<Rightarrow> 'a list" where
  "mode xs =
     (case value_counts xs of
        [] \<Rightarrow> []
      | p # ps \<Rightarrow> sort (map fst (filter (\<lambda>q. snd q = snd p) (p # ps))))"

definition fillna :: "'a option \<Rightarrow> 'a option \<Rightarrow> 'a option" where
  "fillna v a = (case a of None \<Rightarrow> v | Some x \<Rightarrow> Some x)"

text \<open>
  \<open>df.groupby(key)[col].mean()\<close>: one entry per distinct key, the keys sorted, with the
  mean of the column over the rows of that key.
\<close>

definition groupby_mean ::
  "(row \<Rightarrow> 'k::linorder) \<Rightarrow> (row \<Rightarrow> float) \<Rightarrow> dataframe \<Rightarrow> ('k \<times> float) list" where
  "groupby_mean key col df =
     map (\<lambda>k. (k, mean (map col (filter (\<lambda>r. key r = k) df)))) (sort (unique (map key df)))"

definition survived_float :: "row \<Rightarrow> float" where
  "survived_float r = Some (of_int (Survived r))"


section \<open>The statistics responder: \<open>TitanicAgent.process_query\<close>\<close>

text \<open>The non-ASCII characters of the response texts, as UTF-8 bytes.\<close>

definition ship :: string where
  "ship = [CHR 0xF0, CHR 0x9F, CHR 0x9A, CHR 0xA2]"

definition people :: string where
  "people = [CHR 0xF0, CHR 0x9F, CHR 0x91, CHR 0xA5]"

definition ticket :: string where
  "ticket = [CHR 0xF0, CHR 0x9F, CHR 0x8E, CHR 0xAB]"

definition money_bag :: string where
  "money_bag = [CHR 0xF0, CHR 0x9F, CHR 0x92, CHR 0xB0]"

definition light_bulb :: string where
  "light_bulb = [CHR 0xF0, CHR 0x9F, CHR 0x92, CHR 0xA1]"

definition cross_mark :: string where
  "cross_mark = [CHR 0xE2, CHR 0x9D, CHR 0x8C]"

definition nl :: string where
  "nl = [CHR 0x0A]"

definition quote :: string where
  "quote = [CHR 0x27]"

definition chart_terms :: "string list" where
  "chart_terms = [''show'', ''plot'', ''chart'', ''graph'']"

definition port_names :: "(string \<times> string) list" where
  "port_names = [(''S'', ''Southampton''), (''C'', ''Cherbourg''), (''Q'', ''Queenstown'')]"

text \<open>
  The texts of the six answers, of the help and of the apology. The percentage of the
  survivors is computed in floats: the two integers are converted, and the quotient and
  the product by 100 are rounded.
\<close>

definition survival_text :: "int \<Rightarrow> int \<Rightarrow> string" where
  "survival_text survived_count total_count =
     ship @ '' '' @ str_int survived_count @ '' passengers survived out of '' @
     str_int total_count @ '' ('' @
     format_fixed 1
       (Some (float_round
          (float_round (float_of_int survived_count / float_of_int total_count) * 100))) @
     ''%)''"

definition age_text :: "float \<Rightarrow> string" where
  "age_text avg_age =
     people @ '' The average age of passengers was '' @ format_fixed 1 avg_age @ '' years''"

definition gender_text :: "(string \<times> nat) list \<Rightarrow> string" where
  "gender_text gender_stats =
     people @ '' Passenger gender distribution:'' @ nl @
     ''Male: '' @ str_nat (get gender_stats ''male'' 0) @ nl @
     ''Female: '' @ str_nat (get gender_stats ''female'' 0)"

definition class_text :: "(int \<times> nat) list \<Rightarrow> string" where
  "class_text class_stats =
     ticket @ '' Passenger class distribution:'' @ nl @
     ''First Class: '' @ str_nat (get class_stats 1 0) @ nl @
     ''Second Class: '' @ str_nat (get class_stats 2 0) @ nl @
     ''Third Class: '' @ str_nat (get class_stats 3 0)"

definition port_line :: "string \<times> nat \<Rightarrow> string" where
  "port_line item =
     get port_names (fst item) (fst item) @ '': '' @ str_nat (snd item) @ '' passengers'' @ nl"

text \<open>The loop over \<open>embarked_stats.items()\<close>, appending one line for each item.\<close>

definition port_text :: "(string \<times> nat) list \<Rightarrow> string" where
  "port_text embarked_stats =
     fold (\<lambda>item response. response @ port_line item) embarked_stats
       (ship @ '' Embarkation ports:'' @ nl)"

definition fare_text :: "float \<Rightarrow> float \<Rightarrow> float \<Rightarrow> string" where
  "fare_text avg_fare max_fare min_fare =
     money_bag @ '' Fare statistics:'' @ nl @
     ''Average: $'' @ format_fixed 2 avg_fare @ nl @
     ''Highest: $'' @ format_fixed 2 max_fare @ nl @
     ''Lowest: $'' @ format_fixed 2 min_fare"

definition help_text :: string where
  "help_text =
     light_bulb @ '' Try asking about:'' @ nl @
     ''- Survival statistics'' @ nl @
     ''- Passenger demographics (age, gender)'' @ nl @
     ''- Ticket class distribution'' @ nl @
     ''- Embarkation ports'' @ nl @
     ''- Fare information'' @ nl @
     ''Or use keywords like '' @ quote @ ''show'' @ quote @ '', '' @ quote @ ''plot'' @ quote @
     '', or '' @ quote @ ''chart'' @ quote @ '' for visualizations!''"

definition apology_text :: string where
  "apology_text =
     cross_mark @ '' I apologize, but I couldn'' @ quote @
     ''t process that query. Please try rephrasing or use one of the example queries.''"

text \<open>
  The body of the \<open>try\<close> statement. The only operation of the body that can raise on a
  frame with all its columns is the division by \<open>total_count\<close>: a frame without rows,
  as \<open>read_csv\<close> yields it from a file with a header only, has columns of dtype object,
  whose sum is the Python integer 0, and the division raises \<open>ZeroDivisionError\<close>.
\<close>

definition process_query_try :: "dataframe \<Rightarrow> string \<Rightarrow> error + string" where
  "process_query_try df query =
     (let query_lower = lower query in
      if is_in ''survived'' query_lower then
        (let survived_count = sum_list (map Survived df);
             total_count = int (length df)
         in if total_count = 0 then Inl ZeroDivisionError
            else Inr (survival_text survived_count total_count))
      else if is_in ''average age'' query_lower then
        Inr (age_text (mean (map Age df)))
      else if is_in ''male'' query_lower \<or> is_in ''female'' query_lower
              \<or> is_in ''gender'' query_lower then
        Inr (gender_text (value_counts (map Sex df)))
      else if is_in ''class'' query_lower \<and> \<not> any_in chart_terms query_lower then
        Inr (class_text (sort_index (value_counts (map Pclass df))))
      else if is_in ''embarked'' query_lower \<or> is_in ''port'' query_lower then
        Inr (port_text (value_counts (dropna (map Embarked df))))
      else if is_in ''fare'' query_lower \<and> \<not> any_in chart_terms query_lower then
        Inr (fare_text (mean (map Fare df)) (max_col (map Fare df)) (min_col (map Fare df)))
      else Inr help_text)"

text \<open>
  The \<open>except Exception\<close> clause turns every exception of the body into the apology
  (the call of \<open>st.error\<close> only displays the message).
\<close>

definition process_query :: "dataframe \<Rightarrow> string \<Rightarrow> error + string" where
  "process_query df query =
     (case process_query_try df query of
        Inl e \<Rightarrow> Inr apology_text
      | Inr response \<Rightarrow> Inr response)"

section \<open>The visualization builder: \<open>create_visualization\<close>\<close>

text \<open>
  A figure of plotly express: its kind, its data and its title. The colours, the
  opacity and the layout that the program sets on every figure are not modelled.
\<close>

datatype figure =
    Histogram "float list" nat string
  | Bar "string list" "float list" string
  | Pie "nat list" "string list" string

text \<open>
  \<open>px.bar\<close> and \<open>px.pie\<close> raise \<open>ValueError\<close> when their array arguments differ in
  length.
\<close>

definition same_length_error :: error where
  "same_length_error = ValueError ''All arguments should have the same length.''"

definition px_histogram :: "float list \<Rightarrow> nat \<Rightarrow> string \<Rightarrow> error + figure" where
  "px_histogram x nbins title = Inr (Histogram x nbins title)"

definition px_bar :: "string list \<Rightarrow> float list \<Rightarrow> string \<Rightarrow> error + figure" where
  "px_bar x y title =
     (if length x = length y then Inr (Bar x y title) else Inl same_length_error)"

definition px_pie :: "nat list \<Rightarrow> string list \<Rightarrow> string \<Rightarrow> error + figure" where
  "px_pie vals names title =
     (if length vals = length names then Inr (Pie vals names title)
      else Inl same_length_error)"

definition some_figure :: "error + figure \<Rightarrow> error + figure option" where
  "some_figure r = (case r of Inl e \<Rightarrow> Inl e | Inr fig \<Rightarrow> Inr (Some fig))"

text \<open>The body of the \<open>try\<close> statement, on the query in lower case.\<close>

definition create_visualization_try :: "dataframe \<Rightarrow> string \<Rightarrow> error + figure option" where
  "create_visualization_try df query =
     (if is_in ''age distribution'' query then
        some_figure (px_histogram (map Age df) 30 ''Age Distribution of Passengers'')
      else if is_in ''survival rate by class'' query then
        (let survival_by_class =
               map (\<lambda>p. fmul (snd p) 100) (groupby_mean Pclass survived_float df)
         in some_figure (px_bar [''First'', ''Second'', ''Third''] survival_by_class
              ''Survival Rate by Passenger Class''))
      else if is_in ''pie chart'' query \<and> is_in ''class'' query then
        (let class_dist = value_counts (map Pclass df)
         in some_figure (px_pie (map snd class_dist) [''First'', ''Second'', ''Third'']
              ''Distribution of Passenger Classes''))
      else if is_in ''survival'' query \<and>
              (is_in ''gender'' query \<or> is_in ''male'' query \<or> is_in ''female'' query) then
        (let survival_by_sex = groupby_mean Sex survived_float df
         in some_figure (px_bar (map fst survival_by_sex)
              (map (\<lambda>p. fmul (snd p) 100) survival_by_sex) ''Survival Rate by Gender''))
      else Inr None)"

definition create_visualization :: "dataframe \<Rightarrow> string \<Rightarrow> error + figure option" where
  "create_visualization df query =
     (case create_visualization_try df (lower query) of
        Inl e \<Rightarrow> Inr None
      | Inr fig \<Rightarrow> Inr fig)"

section \<open>The answer to one query in \<open>main\<close>\<close>

definition viz_terms :: "string list" where
  "viz_terms = [''show'', ''plot'', ''chart'', ''graph'', ''visualize'']"

text \<open>
  The response that \<open>main\<close> writes for a query and the chart that it plots, if any:
  the builder is called only when the query holds one of the visualization terms.
\<close>

definition main_query :: "dataframe \<Rightarrow> string \<Rightarrow> error + string \<times> figure option" where
  "main_query df query =
     (case process_query df query of
        Inl e \<Rightarrow> Inl e
      | Inr response \<Rightarrow>
          if any_in viz_terms (lower query) then
            (case create_visualization df query of
               Inl e \<Rightarrow> Inl e
             | Inr fig \<Rightarrow> Inr (response, fig))
          else Inr (response, None))"


section \<open>The preprocessor: \<open>load_and_process_data\<close>\<close>

text \<open>
  What \<open>pd.read_csv\<close> finds at the address: nothing that it can retrieve, a file without
  any column, or a table with its column names and its rows. The value that a row
  holds for a column that the table does not have is never read by the preprocessor.
  Only these three outcomes are modelled: a file that \<open>read_csv\<close> cannot parse or decode
  (\<open>ParserError\<close>, \<open>UnicodeDecodeError\<close>) and a column \<open>Age\<close> or \<open>Fare\<close> that holds text
  (\<open>TypeError\<close> in \<open>median\<close>) are outside the model.
\<close>

datatype source =
    Unreachable
  | Empty_File
  | Table "string list" "passenger list"

definition read_csv :: "source \<Rightarrow> error + string list \<times> passenger list" where
  "read_csv src =
     (case src of
        Unreachable \<Rightarrow> Inl URLError
      | Empty_File \<Rightarrow> Inl EmptyDataError
      | Table cols rows \<Rightarrow> Inr (cols, rows))"

text \<open>
  \<open>Series.quantile\<close> with linear interpolation, on the values that are present: NaN
  when there is none.
\<close>

definition quantile :: "rat list \<Rightarrow> rat \<Rightarrow> float" where
  "quantile xs q =
     (let s = sort xs; n = length s
      in if n = 0 then None
         else (let pos = q * of_nat (n - 1);
                   lo = nat \<lfloor>pos\<rfloor>;
                   hi = min (lo + 1) (n - 1)
               in Some (s ! lo + (pos - of_nat lo) * (s ! hi - s ! lo))))"

text \<open>\<open>bins.searchsorted(x, side='left')\<close> on increasing bin edges.\<close>

definition searchsorted :: "rat list \<Rightarrow> rat \<Rightarrow> nat" where
  "searchsorted bins x = length (takeWhile (\<lambda>b. b < x) bins)"

text \<open>
  The assignment of a value to a bin, with right-closed bins: the value \<open>x\<close> is in bin
  \<open>i\<close> when \<open>bins[i-1] < x \<le> bins[i]\<close>; with \<open>include_lowest\<close> the first edge belongs
  to bin 1. A value in no bin, and NaN, have no category.
\<close>

definition bins_to_cuts :: "bool \<Rightarrow> rat list \<Rightarrow> string list \<Rightarrow> float \<Rightarrow> string option" where
  "bins_to_cuts include_lowest bins labels v =
     (case v of
        None \<Rightarrow> None
      | Some x \<Rightarrow>
          (let ids = (if include_lowest \<and> x = bins ! 0 then 1 else searchsorted bins x)
           in if ids = length bins \<or> ids = 0 then None else Some (labels ! (ids - 1))))"

text \<open>\<open>pd.cut(x, bins, labels)\<close> with a list of edges: \<open>include_lowest\<close> is false.\<close>

definition cut :: "float list \<Rightarrow> rat list \<Rightarrow> string list \<Rightarrow> string option list" where
  "cut xs bins labels = map (bins_to_cuts False bins labels) xs"

text \<open>
  \<open>pd.qcut(x, q, labels)\<close>: the edges are the quantiles \<open>0, 1/q, ..., 1\<close> of the values;
  edges that are not all different raise \<open>ValueError\<close> (also when every value is NaN,
  and every edge with them).
\<close>

definition unique_error :: error where
  "unique_error = ValueError ''Bin edges must be unique''"

definition qcut :: "float list \<Rightarrow> nat \<Rightarrow> string list \<Rightarrow> error + string option list" where
  "qcut xs q labels =
     (let quantiles = map (\<lambda>i. of_nat i / of_nat q) [0..<q + 1];
          bins = map (quantile (dropna xs)) quantiles
      in if length (unique bins) < length bins \<and> length bins \<noteq> 2 then Inl unique_error
         else Inr (map (bins_to_cuts True (dropna bins) labels) xs))"

definition age_bins :: "rat list" where
  "age_bins = [0, 12, 18, 35, 50, 65, 100]"

definition age_labels :: "string list" where
  "age_labels = [''Child'', ''Teen'', ''Young Adult'', ''Adult'', ''Senior'', ''Elderly'']"

definition fare_labels :: "string list" where
  "fare_labels = [''Economy'', ''Standard'', ''Premium'', ''Luxury'']"

definition add_columns :: "passenger \<Rightarrow> string option \<Rightarrow> string option \<Rightarrow> row" where
  "add_columns p g c =
     \<lparr>Survived = Survived p, Pclass = Pclass p, Sex = Sex p, Age = Age p, Fare = Fare p,
      Embarked = Embarked p, AgeGroup = g, FareCategory = c\<rparr>"

text \<open>
  The three \<open>fillna\<close> statements, and the two statements that add a column. A
  statement \<open>df[c].fillna(v, inplace=True)\<close> is modelled as the update of column \<open>c\<close>
  of the frame, which is what it does in pandas without copy-on-write.
\<close>

definition fill_age :: "passenger list \<Rightarrow> passenger list" where
  "fill_age df = map (\<lambda>p. p\<lparr>Age := fillna (median (map Age df)) (Age p)\<rparr>) df"

definition fill_embarked :: "string \<Rightarrow> passenger list \<Rightarrow> passenger list" where
  "fill_embarked m df = map (\<lambda>p. p\<lparr>Embarked := fillna (Some m) (Embarked p)\<rparr>) df"

definition fill_fare :: "passenger list \<Rightarrow> passenger list" where
  "fill_fare df = map (\<lambda>p. p\<lparr>Fare := fillna (median (map Fare df)) (Fare p)\<rparr>) df"

definition add_categories ::
  "passenger list \<Rightarrow> string option list \<Rightarrow> string option list \<Rightarrow> dataframe" where
  "add_categories df age_group fare_category =
     map (\<lambda>(p, g, c). add_columns p g c) (zip df (zip age_group fare_category))"

text \<open>
  The function, statement by statement: a column that is not in the table raises
  \<open>KeyError\<close> where it is first read, and so does element 0 of an empty \<open>mode()\<close>.
\<close>

definition load_and_process_data :: "source \<Rightarrow> error + dataframe" where
  "load_and_process_data src =
     (case read_csv src of
        Inl e \<Rightarrow> Inl e
      | Inr (cols, df) \<Rightarrow>
          if ''Age'' \<notin> set cols then Inl (KeyError ''Age'')
          else
            (let df = fill_age df
             in if ''Embarked'' \<notin> set cols then Inl (KeyError ''Embarked'')
                else
                  (case mode (dropna (map Embarked df)) of
                     [] \<Rightarrow> Inl (KeyError ''0'')
                   | m # ms \<Rightarrow>
                       (let df = fill_embarked m df
                        in if ''Fare'' \<notin> set cols then Inl (KeyError ''Fare'')
                           else
                             (let df = fill_fare df;
                                  age_group = cut (map Age df) age_bins age_labels
                              in case qcut (map Fare df) 4 fare_labels of
                                   Inl e \<Rightarrow> Inl e
                                 | Inr fare_category \<Rightarrow>
                                     Inr (add_categories df age_group fare_category))))))"

text \<open>
  The rows after the three \<open>fillna\<close> statements, and the bin edges that \<open>pd.qcut\<close>
  computes with \<open>q = 4\<close> from a column of fares.
\<close>

definition fill_missing :: "passenger list \<Rightarrow> passenger list" where
  "fill_missing rows =
     (case mode (dropna (map Embarked rows)) of
        [] \<Rightarrow> []
      | m # ms \<Rightarrow> fill_fare (fill_embarked m (fill_age rows)))"

definition quartile_edges :: "float list \<Rightarrow> float list" where
  "quartile_edges fares = map (quantile (dropna fares)) [0, 1 / 4, 1 / 2, 3 / 4, 1]"

section \<open>Example inputs\<close>

text \<open>The columns that the program reads from the table.\<close>

definition required_columns :: "string list" where
  "required_columns = [''Survived'', ''Pclass'', ''Sex'', ''Age'', ''Fare'', ''Embarked'']"

text \<open>
  A table of six passengers with one missing age and one missing port, and the frame
  that the preprocessor makes of it.
\<close>

definition sample_rows :: "passenger list" where
  "sample_rows =
     [\<lparr>Survived = 0, Pclass = 3, Sex = ''male'', Age = Some 22, Fare = Some (29 / 4),
       Embarked = Some ''Q''\<rparr>,
      \<lparr>Survived = 1, Pclass = 1, Sex = ''female'', Age = Some 38, Fare = Some (285 / 4),
       Embarked = Some ''C''\<rparr>,
      \<lparr>Survived = 1, Pclass = 3, Sex = ''female'', Age = Some 26, Fare = Some 8,
       Embarked = Some ''S''\<rparr>,
      \<lparr>Survived = 0, Pclass = 3, Sex = ''male'', Age = None, Fare = Some (17 / 2),
       Embarked = Some ''S''\<rparr>,
      \<lparr>Survived = 1, Pclass = 2, Sex = ''female'', Age = Some 14, Fare = Some 30,
       Embarked = None\<rparr>,
      \<lparr>Survived = 0, Pclass = 1, Sex = ''male'', Age = Some 54, Fare = Some 52,
       Embarked = Some ''C''\<rparr>]"

definition sample_df :: dataframe where
  "sample_df =
     [\<lparr>Survived = 0, Pclass = 3, Sex = ''male'', Age = Some 22, Fare = Some (29 / 4),
       Embarked = Some ''Q'', AgeGroup = Some ''Young Adult'', FareCategory = Some ''Economy''\<rparr>,
      \<lparr>Survived = 1, Pclass = 1, Sex = ''female'', Age = Some 38, Fare = Some (285 / 4),
       Embarked = Some ''C'', AgeGroup = Some ''Adult'', FareCategory = Some ''Luxury''\<rparr>,
      \<lparr>Survived = 1, Pclass = 3, Sex = ''female'', Age = Some 26, Fare = Some 8,
       Embarked = Some ''S'', AgeGroup = Some ''Young Adult'', FareCategory = Some ''Economy''\<rparr>,
      \<lparr>Survived = 0, Pclass = 3, Sex = ''male'', Age = Some 26, Fare = Some (17 / 2),
       Embarked = Some ''S'', AgeGroup = Some ''Young Adult'', FareCategory = Some ''Standard''\<rparr>,
      \<lparr>Survived = 1, Pclass = 2, Sex = ''female'', Age = Some 14, Fare = Some 30,
       Embarked = Some ''C'', AgeGroup = Some ''Teen'', FareCategory = Some ''Premium''\<rparr>,
      \<lparr>Survived = 0, Pclass = 1, Sex = ''male'', Age = Some 54, Fare = Some 52,
       Embarked = Some ''C'', AgeGroup = Some ''Senior'', FareCategory = Some ''Luxury''\<rparr>]"

text \<open>A table in which two of five fares are the lowest fare.\<close>

definition shared_fare_rows :: "passenger list" where
  "shared_fare_rows =
     [\<lparr>Survived = 0, Pclass = 3, Sex = ''male'', Age = Some 22, Fare = Some (29 / 4),
       Embarked = Some ''S''\<rparr>,
      \<lparr>Survived = 1, Pclass = 3, Sex = ''female'', Age = Some 26, Fare = Some (29 / 4),
       Embarked = Some ''S''\<rparr>,
      \<lparr>Survived = 1, Pclass = 1, Sex = ''female'', Age = Some 38, Fare = Some (285 / 4),
       Embarked = Some ''C''\<rparr>,
      \<lparr>Survived = 0, Pclass = 3, Sex = ''male'', Age = Some 35, Fare = Some 8,
       Embarked = Some ''S''\<rparr>,
      \<lparr>Survived = 0, Pclass = 2, Sex = ''male'', Age = Some 54, Fare = Some 13,
       Embarked = Some ''Q''\<rparr>]"

text \<open>Queries from the list of examples of the program.\<close>

definition compare_query :: string where
  "compare_query = ''Compare survival rates between males and females''"

definition fare_class_query :: string where
  "fare_class_query = ''Show me the fare distribution by class''"

text \<open>Further queries, and the example frame without its second-class passenger.\<close>

definition survived_query :: string where
  "survived_query = ''How many passengers survived?''"

definition class_rate_query :: string where
  "class_rate_query = ''Show the survival rate by class''"

definition pie_query :: string where
  "pie_query = ''Create a pie chart of passenger classes''"

definition two_class_df :: dataframe where
  "two_class_df = filter (\<lambda>r. Pclass r \<noteq> 2) sample_df"

definition pie_survived_query :: string where
  "pie_survived_query = ''Show a pie chart of the classes of those who survived''"

definition port_query :: string where
  "port_query = ''How many passengers embarked from each port?''"

text \<open>A table with ages 0 and 101, and the example table without any port.\<close>

definition edge_age_rows :: "passenger list" where
  "edge_age_rows =
     [\<lparr>Survived = 1, Pclass = 3, Sex = ''female'', Age = Some 0, Fare = Some 9,
       Embarked = Some ''S''\<rparr>,
      \<lparr>Survived = 0, Pclass = 1, Sex = ''male'', Age = Some 101, Fare = Some 30,
       Embarked = Some ''S''\<rparr>,
      \<lparr>Survived = 0, Pclass = 3, Sex = ''male'', Age = Some 12, Fare = Some 8,
       Embarked = Some ''Q''\<rparr>,
      \<lparr>Survived = 1, Pclass = 2, Sex = ''female'', Age = Some 100, Fare = Some 13,
       Embarked = Some ''S''\<rparr>,
      \<lparr>Survived = 0, Pclass = 2, Sex = ''male'', Age = Some 30, Fare = Some 26,
       Embarked = Some ''C''\<rparr>]"

definition edge_age_df :: dataframe where
  "edge_age_df =
     [\<lparr>Survived = 1, Pclass = 3, Sex = ''female'', Age = Some 0, Fare = Some 9,
       Embarked = Some ''S'', AgeGroup = None, FareCategory = Some ''Economy''\<rparr>,
      \<lparr>Survived = 0, Pclass = 1, Sex = ''male'', Age = Some 101, Fare = Some 30,
       Embarked = Some ''S'', AgeGroup = None, FareCategory = Some ''Luxury''\<rparr>,
      \<lparr>Survived = 0, Pclass = 3, Sex = ''male'', Age = Some 12, Fare = Some 8,
       Embarked = Some ''Q'', AgeGroup = Some ''Child'', FareCategory = Some ''Economy''\<rparr>,
      \<lparr>Survived = 1, Pclass = 2, Sex = ''female'', Age = Some 100, Fare = Some 13,
       Embarked = Some ''S'', AgeGroup = Some ''Elderly'', FareCategory = Some ''Standard''\<rparr>,
      \<lparr>Survived = 0, Pclass = 2, Sex = ''male'', Age = Some 30, Fare = Some 26,
       Embarked = Some ''C'', AgeGroup = Some ''Young Adult'',
       FareCategory = Some ''Premium''\<rparr>]"




text \<open>A frame of 80 rows with 23 survivors.\<close>

definition ratio_df :: dataframe where
  "ratio_df = replicate 23 (sample_df ! 1) @ replicate 57 (sample_df ! 0)"

text \<open>A query for the class distribution as text.\<close>

definition class_query :: string where
  "class_query = ''What is the class distribution?''"

section \<open>Properties\<close>

subsection \<open>The example frame\<close>

lemma load_sample: "load_and_process_data (Table required_columns sample_rows) = Inr sample_df"
  by code_simp

subsection \<open>The query that compares the survival of males and females\<close>

lemma compare_query_survived: "is_in ''survived'' (lower compare_query) = False" by code_simp
lemma compare_query_average: "is_in ''average age'' (lower compare_query) = False" by code_simp
lemma compare_query_male: "is_in ''male'' (lower compare_query) = True" by code_simp
lemma compare_query_viz: "any_in viz_terms (lower compare_query) = False" by code_simp
lemma compare_query_a: "is_in ''age distribution'' (lower compare_query) = False" by code_simp
lemma compare_query_b: "is_in ''survival rate by class'' (lower compare_query) = False" by code_simp
lemma compare_query_c: "is_in ''pie chart'' (lower compare_query) = False" by code_simp
lemma compare_query_d: "is_in ''survival'' (lower compare_query) = True" by code_simp

text \<open>
  Claim C1, as the program has it: for the query "Compare survival rates between males
  and females" the responder answers with the gender distribution text (rule 3 has no
  chart override), and \<open>main\<close> plots no chart, because the query holds none of the
  visualization terms and the builder is not called. Called on this query, the builder
  returns the bar chart of the survival rate by gender.
\<close>

theorem compare_query_text_without_chart:
  "main_query df compare_query = Inr (gender_text (value_counts (map Sex df)), None) \<and>
   create_visualization df compare_query =
     Inr (Some (Bar (map fst (groupby_mean Sex survived_float df))
                    (map (\<lambda>p. fmul (snd p) 100) (groupby_mean Sex survived_float df))
                    ''Survival Rate by Gender''))"
  by (simp add: main_query_def process_query_def process_query_try_def
      create_visualization_def create_visualization_try_def px_bar_def some_figure_def Let_def
      compare_query_survived compare_query_average compare_query_male compare_query_viz
      compare_query_a compare_query_b compare_query_c compare_query_d)

text \<open>
  Claim C1 as it is stated fails on the example frame: the gender distribution text is
  the response, and no chart comes with it.
\<close>

theorem compare_query_counterexample:
  "main_query sample_df compare_query =
     Inr (people @ '' Passenger gender distribution:'' @ nl @ ''Male: 3'' @ nl @ ''Female: 3'',
          None)"
  by code_simp

subsection \<open>Failures of the preprocessor\<close>

text \<open>
  Claim C10: there is a table with rows and with every column of the schema on which
  the preprocessor raises: when fares share a value so that two quartile edges are
  equal, \<open>pd.qcut\<close> raises \<open>ValueError\<close>.
\<close>

theorem fare_quartile_error_reachable:
  "\<exists>rows. rows \<noteq> [] \<and> load_and_process_data (Table required_columns rows) = Inl unique_error"
proof (intro exI conjI)
  show "shared_fare_rows \<noteq> []" by code_simp
  show "load_and_process_data (Table required_columns shared_fare_rows) = Inl unique_error"
    by code_simp
qed

subsection \<open>The response texts\<close>

text \<open>
  Every response starts with its own symbol, so the fare statistics are told from
  every other response by their first four bytes.
\<close>

lemma fold_append_concat:
  "fold (\<lambda>item response. response @ f item) xs init = init @ concat (map f xs)"
  by (induction xs arbitrary: init) simp_all

lemma port_text_concat:
  "port_text s = ship @ '' Embarkation ports:'' @ nl @ concat (map port_line s)"
  by (simp add: port_text_def fold_append_concat)

lemma take4_survival: "take 4 (survival_text s t) = ship"
  by (simp add: survival_text_def ship_def)

lemma take4_age: "take 4 (age_text v) = people"
  by (simp add: age_text_def people_def)

lemma take4_gender: "take 4 (gender_text g) = people"
  by (simp add: gender_text_def people_def)

lemma take4_class: "take 4 (class_text c) = ticket"
  by (simp add: class_text_def ticket_def)

lemma take4_port: "take 4 (port_text p) = ship"
  by (simp add: port_text_concat ship_def)

lemma take4_fare: "take 4 (fare_text a b c) = money_bag"
  by (simp add: fare_text_def money_bag_def)

lemma take4_help: "take 4 help_text = light_bulb"
  by (simp add: help_text_def light_bulb_def)

lemma take4_apology: "take 4 apology_text = cross_mark @ '' ''"
  by (simp add: apology_text_def cross_mark_def)

lemma heads_differ:
  "ship \<noteq> money_bag" "people \<noteq> money_bag" "ticket \<noteq> money_bag"
  "light_bulb \<noteq> money_bag" "cross_mark @ '' '' \<noteq> money_bag"
  by (simp_all add: ship_def people_def ticket_def light_bulb_def cross_mark_def money_bag_def)

lemma not_fare_text:
  "survival_text s t \<noteq> fare_text a b c"
  "age_text v \<noteq> fare_text a b c"
  "gender_text g \<noteq> fare_text a b c"
  "class_text cs \<noteq> fare_text a b c"
  "port_text p \<noteq> fare_text a b c"
  "help_text \<noteq> fare_text a b c"
  "apology_text \<noteq> fare_text a b c"
  using heads_differ
  by (metis take4_survival take4_fare, metis take4_age take4_fare, metis take4_gender take4_fare,
      metis take4_class take4_fare, metis take4_port take4_fare, metis take4_help take4_fare,
      metis take4_apology take4_fare)

subsection \<open>Queries about fares that ask for a chart\<close>

lemma process_query_Inr: "\<exists>response. process_query df query = Inr response"
  by (cases "process_query_try df query") (simp_all add: process_query_def)

lemma create_visualization_Inr: "\<exists>fig. create_visualization df query = Inr fig"
  by (cases "create_visualization_try df (lower query)") (simp_all add: create_visualization_def)

lemma any_in_chart_viz: "any_in chart_terms s \<Longrightarrow> any_in viz_terms s"
  by (auto simp: chart_terms_def viz_terms_def)

lemma fare_class_query_facts:
  "is_in ''survived'' (lower fare_class_query) = False"
  "is_in ''average age'' (lower fare_class_query) = False"
  "is_in ''male'' (lower fare_class_query) = False"
  "is_in ''female'' (lower fare_class_query) = False"
  "is_in ''gender'' (lower fare_class_query) = False"
  "is_in ''class'' (lower fare_class_query) = True"
  "is_in ''embarked'' (lower fare_class_query) = False"
  "is_in ''port'' (lower fare_class_query) = False"
  "is_in ''fare'' (lower fare_class_query) = True"
  "any_in chart_terms (lower fare_class_query) = True"
  "any_in viz_terms (lower fare_class_query) = True"
  "is_in ''age distribution'' (lower fare_class_query) = False"
  "is_in ''survival rate by class'' (lower fare_class_query) = False"
  "is_in ''pie chart'' (lower fare_class_query) = False"
  "is_in ''survival'' (lower fare_class_query) = False"
  by code_simp+

text \<open>
  Claim C5: a query that contains "fare" together with one of the words show, plot,
  chart and graph never gets the fare statistics as its response, whatever the frame;
  when it matches none of the four rules of the visualization builder, \<open>main\<close> shows
  no chart with the response either. For "Show me the fare distribution by class" the
  response is the help text, without a chart.
\<close>

theorem fare_with_chart_term:
  assumes "is_in ''fare'' (lower query)" and "any_in chart_terms (lower query)"
  shows "(\<forall>a b c. process_query df query \<noteq> Inr (fare_text a b c)) \<and>
         (\<not> is_in ''age distribution'' (lower query) \<and>
          \<not> is_in ''survival rate by class'' (lower query) \<and>
          \<not> (is_in ''pie chart'' (lower query) \<and> is_in ''class'' (lower query)) \<and>
          \<not> (is_in ''survival'' (lower query) \<and>
               (is_in ''gender'' (lower query) \<or> is_in ''male'' (lower query)
                \<or> is_in ''female'' (lower query)))
          \<longrightarrow> (\<exists>response. main_query df query = Inr (response, None) \<and>
                 (\<forall>a b c. response \<noteq> fare_text a b c))) \<and>
         main_query df fare_class_query = Inr (help_text, None)"
proof (intro conjI)
  show no_fare: "\<forall>a b c. process_query df query \<noteq> Inr (fare_text a b c)"
    using assms by (simp add: process_query_def process_query_try_def Let_def not_fare_text)
  show "main_query df fare_class_query = Inr (help_text, None)"
    by (simp add: main_query_def process_query_def process_query_try_def
        create_visualization_def create_visualization_try_def fare_class_query_facts)
  show "\<not> is_in ''age distribution'' (lower query) \<and>
          \<not> is_in ''survival rate by class'' (lower query) \<and>
          \<not> (is_in ''pie chart'' (lower query) \<and> is_in ''class'' (lower query)) \<and>
          \<not> (is_in ''survival'' (lower query) \<and>
               (is_in ''gender'' (lower query) \<or> is_in ''male'' (lower query)
                \<or> is_in ''female'' (lower query)))
          \<longrightarrow> (\<exists>response. main_query df query = Inr (response, None) \<and>
                 (\<forall>a b c. response \<noteq> fare_text a b c))"
  proof
    assume none: "\<not> is_in ''age distribution'' (lower query) \<and>
          \<not> is_in ''survival rate by class'' (lower query) \<and>
          \<not> (is_in ''pie chart'' (lower query) \<and> is_in ''class'' (lower query)) \<and>
          \<not> (is_in ''survival'' (lower query) \<and>
               (is_in ''gender'' (lower query) \<or> is_in ''male'' (lower query)
                \<or> is_in ''female'' (lower query)))"
    then have chart: "create_visualization df query = Inr None"
      by (auto simp: create_visualization_def create_visualization_try_def)
    obtain response where r: "process_query df query = Inr response"
      using process_query_Inr by blast
    with no_fare have "\<forall>a b c. response \<noteq> fare_text a b c" by simp
    moreover have "main_query df query = Inr (response, None)"
      using r chart any_in_chart_viz [OF assms(2)] by (simp add: main_query_def)
    ultimately show "\<exists>response. main_query df query = Inr (response, None) \<and>
                 (\<forall>a b c. response \<noteq> fare_text a b c)" by blast
  qed
qed

text \<open>The example query and the example frame satisfy the hypotheses of C5.\<close>

theorem fare_with_chart_term_witness:
  "is_in ''fare'' (lower fare_class_query) \<and> any_in chart_terms (lower fare_class_query) \<and>
   (\<forall>a b c. process_query sample_df fare_class_query \<noteq> Inr (fare_text a b c)) \<and>
   (\<exists>response. main_query sample_df fare_class_query = Inr (response, None) \<and>
                 (\<forall>a b c. response \<noteq> fare_text a b c))"
  using fare_with_chart_term [of fare_class_query sample_df]
  by (simp add: fare_class_query_facts not_fare_text)

subsection \<open>The survival count\<close>

lemma sum_flags_bounds:
  "\<forall>r\<in>set df. Survived r = 0 \<or> Survived r = 1 \<Longrightarrow>
   0 \<le> sum_list (map Survived df) \<and> sum_list (map Survived df) \<le> int (length df)"
  by (induction df) auto

lemma sum_flags_count:
  "\<forall>r\<in>set df. Survived r = 0 \<or> Survived r = 1 \<Longrightarrow>
   sum_list (map Survived df) = int (length (filter (\<lambda>r. Survived r = 1) df))"
  by (induction df) auto

subsection \<open>Rounding to a float\<close>

lemma round_half_even_of_int: "round_half_even (of_int n) = n"
  by (simp add: round_half_even_def)

lemma round_half_even_floor:
  "\<lfloor>x\<rfloor> \<le> round_half_even x" "round_half_even x \<le> \<lfloor>x\<rfloor> + 1"
  by (simp_all add: round_half_even_def Let_def)

lemma round_half_even_near: "\<bar>of_int (round_half_even x) - x\<bar> \<le> 1 / 2"
proof -
  have "of_int \<lfloor>x\<rfloor> \<le> x" "x < of_int \<lfloor>x\<rfloor> + 1" by linarith+
  then show ?thesis by (auto simp: round_half_even_def Let_def)
qed

lemma round_half_even_mono:
  assumes "a \<le> b"
  shows "round_half_even a \<le> round_half_even b"
proof (cases "\<lfloor>a\<rfloor> = \<lfloor>b\<rfloor>")
  case True
  then show ?thesis using assms by (auto simp: round_half_even_def Let_def)
next
  case False
  then have "\<lfloor>a\<rfloor> + 1 \<le> \<lfloor>b\<rfloor>" using floor_mono [OF assms] by linarith
  then show ?thesis
    using round_half_even_floor(2) [of a] round_half_even_floor(1) [of b] by linarith
qed

lemma exponent_bounds:
  assumes "0 < x"
  shows "2 powi exponent x \<le> x \<and> x < 2 powi (exponent x + 1)"
proof (cases "1 \<le> x")
  case True
  define n where "n = \<lfloor>x\<rfloor>"
  have n: "0 < n" using True by (simp add: n_def)
  have b: "1 \<le> bitlen n" using n by (simp add: bitlen_alt_def)
  from bitlen_bounds [OF n] have lo: "2 ^ nat (bitlen n - 1) \<le> n" and hi: "n + 1 \<le> 2 ^ nat (bitlen n)"
    by simp_all
  have e: "exponent x = bitlen n - 1" using True by (simp add: exponent_def n_def)
  have "(2::rat) powi (bitlen n - 1) = of_int (2 ^ nat (bitlen n - 1))"
    using b by (simp add: power_int_def)
  also have "\<dots> \<le> of_int n" using lo by (simp only: of_int_le_iff)
  also have "\<dots> \<le> x" by (simp add: n_def)
  finally have 1: "2 powi exponent x \<le> x" by (simp only: e)
  have "x < of_int (n + 1)" unfolding n_def by linarith
  also have "\<dots> \<le> of_int (2 ^ nat (bitlen n))" using hi by (simp only: of_int_le_iff)
  also have "\<dots> = (2::rat) powi (bitlen n)" using b by (simp add: power_int_def)
  finally have "x < 2 powi (exponent x + 1)" by (simp add: e)
  with 1 show ?thesis by simp
next
  case False
  define m where "m = \<lceil>1 / x\<rceil> - 1"
  define k where "k = bitlen m"
  have y: "1 < 1 / x" using assms False by simp
  then have m: "0 < m" unfolding m_def by linarith
  then have k: "1 \<le> k" by (simp add: k_def bitlen_alt_def)
  from bitlen_bounds [OF m] have lo: "2 ^ nat (k - 1) \<le> m" and hi: "m + 1 \<le> 2 ^ nat k"
    by (simp_all add: k_def)
  have e: "exponent x = - k" using False by (simp add: exponent_def m_def k_def)
  have "1 / x \<le> of_int (m + 1)" unfolding m_def by simp
  also have "\<dots> \<le> of_int (2 ^ nat k)" using hi by (simp only: of_int_le_iff)
  finally have "1 / x \<le> 2 ^ nat k" by simp
  then have "1 / 2 ^ nat k \<le> x" using assms by (simp add: field_simps)
  moreover have "(2::rat) powi (- k) = 1 / 2 ^ nat k"
    using k by (simp add: power_int_def field_simps)
  ultimately have 1: "2 powi exponent x \<le> x" by (simp only: e)
  have "(2::rat) ^ nat (k - 1) = of_int (2 ^ nat (k - 1))" by simp
  also have "\<dots> \<le> of_int m" using lo by (simp only: of_int_le_iff)
  also have "\<dots> < 1 / x" unfolding m_def by linarith
  finally have "x < 1 / 2 ^ nat (k - 1)" using assms by (simp add: field_simps)
  moreover have "(2::rat) powi (- k + 1) = 1 / 2 ^ nat (k - 1)"
  proof (cases "k = 1")
    case True
    then show ?thesis by simp
  next
    case False
    then have "- k + 1 < 0" "nat (k - 1) = nat (- (- k + 1))" using k by simp_all
    then show ?thesis by (simp add: power_int_def field_simps)
  qed
  ultimately have "x < 2 powi (exponent x + 1)" by (simp only: e)
  with 1 show ?thesis by simp
qed

lemma exponent_mono:
  assumes "0 < x" and "x \<le> y"
  shows "exponent x \<le> exponent y"
proof (rule ccontr)
  assume "\<not> exponent x \<le> exponent y"
  then have "exponent y + 1 \<le> exponent x" by simp
  then have "(2::rat) powi (exponent y + 1) \<le> 2 powi exponent x"
    by (intro power_int_increasing) simp_all
  moreover have "2 powi exponent x \<le> x" using exponent_bounds [OF assms(1)] by simp
  moreover have "y < 2 powi (exponent y + 1)" using exponent_bounds [of y] assms by simp
  ultimately show False using assms(2) by linarith
qed

lemma float_round_pos:
  assumes "0 < x"
  shows "float_round x =
    of_int (round_half_even (x / 2 powi (max (exponent x) (- 1022) - 52))) *
      2 powi (max (exponent x) (- 1022) - 52)"
  using assms by (simp add: float_round_def Let_def)

lemma float_round_0: "float_round 0 = 0"
  by (simp add: float_round_def)

lemma float_round_nonneg:
  assumes "0 \<le> x"
  shows "0 \<le> float_round x"
proof (cases "x = 0")
  case True
  then show ?thesis by (simp add: float_round_0)
next
  case False
  then have x: "0 < x" using assms by simp
  define u :: rat where "u = 2 powi (max (exponent x) (- 1022) - 52)"
  have u: "0 < u" by (simp add: u_def)
  have "0 \<le> x / u" using x u by simp
  then have "round_half_even 0 \<le> round_half_even (x / u)" by (rule round_half_even_mono)
  then have "0 \<le> round_half_even (x / u)" using round_half_even_of_int [of 0] by simp
  then show ?thesis using u unfolding float_round_pos [OF x] u_def [symmetric] by simp
qed

lemma float_round_mono:
  assumes "0 \<le> x" and "x \<le> y"
  shows "float_round x \<le> float_round y"
proof (cases "x = 0")
  case True
  then show ?thesis using float_round_nonneg [of y] assms by (simp add: float_round_0)
next
  case False
  then have x: "0 < x" and y: "0 < y" using assms by simp_all
  define Ex where "Ex = max (exponent x) (- 1022)"
  define Ey where "Ey = max (exponent y) (- 1022)"
  define ux :: rat where "ux = 2 powi (Ex - 52)"
  define uy :: rat where "uy = 2 powi (Ey - 52)"
  have ux: "0 < ux" and uy: "0 < uy" by (simp_all add: ux_def uy_def)
  have fx: "float_round x = of_int (round_half_even (x / ux)) * ux"
    unfolding float_round_pos [OF x] ux_def Ex_def ..
  have fy: "float_round y = of_int (round_half_even (y / uy)) * uy"
    unfolding float_round_pos [OF y] uy_def Ey_def ..
  have E: "Ex \<le> Ey" using exponent_mono [OF x assms(2)] by (simp add: Ex_def Ey_def)
  show ?thesis
  proof (cases "Ex = Ey")
    case True
    then have "ux = uy" by (simp add: ux_def uy_def)
    moreover have "x / uy \<le> y / uy" using assms(2) uy by (simp add: divide_right_mono)
    then have "round_half_even (x / uy) \<le> round_half_even (y / uy)"
      by (rule round_half_even_mono)
    ultimately show ?thesis unfolding fx fy using uy by simp
  next
    case False
    then have lt: "Ex < Ey" using E by simp
    then have ey: "Ey = exponent y" by (auto simp: Ex_def Ey_def)
    have "exponent x + 1 \<le> Ey" using lt by (simp add: Ex_def)
    then have "(2::rat) powi (exponent x + 1) \<le> 2 powi Ey"
      by (intro power_int_increasing) simp_all
    then have xb: "x \<le> 2 powi Ey" using exponent_bounds [OF x] by linarith
    have yb: "2 powi Ey \<le> y" using exponent_bounds [OF y] by (simp add: ey)
    define N :: int where "N = 2 ^ nat (Ey - Ex + 52)"
    have "(2::rat) powi Ey / ux = 2 powi (Ey - (Ex - 52))"
      unfolding ux_def by (simp add: power_int_diff)
    also have "\<dots> = of_int N" using lt by (simp add: N_def power_int_def)
    finally have N: "(2::rat) powi Ey = of_int N * ux" using ux by (simp add: field_simps)
    have "x / ux \<le> of_int N" using xb ux unfolding N by (simp add: field_simps)
    then have "round_half_even (x / ux) \<le> N"
      using round_half_even_mono round_half_even_of_int by metis
    then have "of_int (round_half_even (x / ux)) * ux \<le> of_int N * ux"
      using ux by (simp add: mult_right_mono)
    then have 1: "float_round x \<le> 2 powi Ey" by (simp only: fx N)
    have "(2::rat) powi Ey / uy = 2 powi (Ey - (Ey - 52))"
      unfolding uy_def by (simp add: power_int_diff)
    then have M: "(2::rat) powi Ey = of_int (2 ^ 52) * uy" using uy by (simp add: field_simps)
    have "of_int (2 ^ 52) \<le> y / uy" using yb uy unfolding M by (simp add: field_simps)
    then have "2 ^ 52 \<le> round_half_even (y / uy)"
      using round_half_even_mono round_half_even_of_int by metis
    then have "of_int (2 ^ 52) * uy \<le> of_int (round_half_even (y / uy)) * uy"
      using uy by (simp only: mult_right_mono of_int_le_iff less_imp_le)
    then have "2 powi Ey \<le> float_round y" by (simp only: fy M)
    with 1 show ?thesis by linarith
  qed
qed

lemma float_round_1: "float_round 1 = 1"
  by code_simp

lemma float_round_100: "float_round 100 = 100"
  by code_simp

lemma float_percentage_bounds:
  fixes X Y :: nat
  assumes "X \<le> Y" and "0 < Y"
  shows "0 \<le> float_round (float_round (float_round (of_nat X) / float_round (of_nat Y)) * 100)"
    and "float_round (float_round (float_round (of_nat X) / float_round (of_nat Y)) * 100) \<le> 100"
proof -
  define a where "a = float_round (of_nat X)"
  define b where "b = float_round (of_nat Y)"
  have a: "0 \<le> a" by (simp add: a_def float_round_nonneg)
  have ab: "a \<le> b" unfolding a_def b_def using assms(1) by (intro float_round_mono) simp_all
  have "float_round 1 \<le> b" unfolding b_def using assms(2) by (intro float_round_mono) simp_all
  then have b: "1 \<le> b" by (simp add: float_round_1)
  have q: "0 \<le> a / b" "a / b \<le> 1" using a ab b by simp_all
  define q where "q = float_round (a / b)"
  have q0: "0 \<le> q" unfolding q_def using q(1) by (rule float_round_nonneg)
  have "q \<le> float_round 1" unfolding q_def using q by (intro float_round_mono)
  then have q1: "q \<le> 1" by (simp add: float_round_1)
  have "0 \<le> q * 100" "q * 100 \<le> 100" using q0 q1 by simp_all
  then have "0 \<le> float_round (q * 100)" "float_round (q * 100) \<le> float_round 100"
    by (simp_all add: float_round_nonneg float_round_mono)
  then show "0 \<le> float_round (float_round (float_round (of_nat X) / float_round (of_nat Y)) * 100)"
    and "float_round (float_round (float_round (of_nat X) / float_round (of_nat Y)) * 100) \<le> 100"
    by (simp_all add: q_def a_def b_def float_round_100)
qed

subsection \<open>Printed numbers\<close>

lemma digit_is_digit: "d < 10 \<Longrightarrow> is_digit (digit d)"
  by (simp add: is_digit_def digit_def)

lemma digit_value_digit: "d < 10 \<Longrightarrow> digit_value (digit d) = d"
  by (simp add: digit_value_def digit_def)

lemma digit_0: "digit 0 = CHR ''0''"
  by code_simp

lemma digit_zero:
  assumes "d < 10"
  shows "digit d = CHR ''0'' \<longleftrightarrow> d = 0"
proof
  assume "digit d = CHR ''0''"
  then have "(of_char (digit d) :: nat) = of_char (CHR ''0'')" by (rule arg_cong)
  then show "d = 0" using assms by (simp add: digit_def)
next
  assume "d = 0"
  then show "digit d = CHR ''0''" by (simp add: digit_0)
qed

lemma decimal_value_snoc: "decimal_value (s @ [c]) = 10 * decimal_value s + digit_value c"
  by (simp add: decimal_value_def)

lemma str_nat_decimal:
  "str_nat n \<noteq> [] \<and> list_all is_digit (str_nat n) \<and> decimal_value (str_nat n) = n \<and>
   (0 < n \<longrightarrow> hd (str_nat n) \<noteq> CHR ''0'')"
proof (induction n rule: str_nat.induct)
  case (1 n)
  show ?case
  proof (cases "n < 10")
    case True
    then have s: "str_nat n = [digit n]" by (simp add: str_nat.simps)
    show ?thesis unfolding s using True
      by (simp add: digit_is_digit digit_value_digit digit_zero decimal_value_def)
  next
    case False
    then have s: "str_nat n = str_nat (n div 10) @ [digit (n mod 10)]"
      by (simp add: str_nat.simps)
    have ih: "str_nat (n div 10) \<noteq> [] \<and> list_all is_digit (str_nat (n div 10)) \<and>
      decimal_value (str_nat (n div 10)) = n div 10 \<and>
      (0 < n div 10 \<longrightarrow> hd (str_nat (n div 10)) \<noteq> CHR ''0'')"
      using "1.IH" False by simp
    have "0 < n div 10" using False by simp
    then show ?thesis unfolding s using ih
      by (simp add: decimal_value_snoc digit_is_digit digit_value_digit)
  qed
qed

lemma str_nat_0: "str_nat 0 = ''0''"
  by code_simp

lemma decimal_str_nat: "decimal (str_nat n) n"
proof (cases "n = 0")
  case True
  then show ?thesis using str_nat_decimal [of 0] by (simp add: decimal_def str_nat_0)
next
  case False
  then show ?thesis using str_nat_decimal [of n] by (simp add: decimal_def)
qed

lemma format_fixed_1:
  assumes "0 \<le> z" and "z \<le> 100"
  shows "\<exists>ip d. format_fixed 1 (Some z) = str_nat ip @ ''.'' @ [digit d] \<and> d < 10 \<and>
           int (10 * ip + d) = round_half_even (z * 10) \<and> 10 * ip + d \<le> 1000"
proof -
  define r where "r = nat (round_half_even (z * 10))"
  have "round_half_even 0 \<le> round_half_even (z * 10)"
    using assms(1) by (intro round_half_even_mono) simp
  then have r0: "0 \<le> round_half_even (z * 10)" by (simp add: round_half_even_of_int [of 0, simplified])
  have "round_half_even (z * 10) \<le> round_half_even (of_int 1000)"
    using assms(2) by (intro round_half_even_mono) simp
  then have r1: "round_half_even (z * 10) \<le> 1000" by (simp only: round_half_even_of_int)
  have r: "int r = round_half_even (z * 10)" "r \<le> 1000" using r0 r1 by (simp_all add: r_def)
  have d: "r mod 10 < 10" by simp
  have "str_nat (r mod 10) = [digit (r mod 10)]" using d by (simp add: str_nat.simps)
  then have "format_fixed 1 (Some z) = str_nat (r div 10) @ ''.'' @ [digit (r mod 10)]"
    using assms(1) by (simp add: format_fixed_def Let_def r_def pad_zeros_def abs_of_nonneg)
  moreover have "10 * (r div 10) + r mod 10 = r" by simp
  ultimately show ?thesis using r d by metis
qed

lemma str_int_nat: "str_int (int n) = str_nat n"
  by (simp add: str_int_def)

text \<open>
  Claim C4: for a query whose text in lower case contains "survived", on a frame that
  has a row and whose survival flags are 0 or 1, the response is the survival count,
  whatever other keywords the query holds. The text is the ship symbol, then
  "X passengers survived out of Y (Z%)": X and Y are the decimal numerals of the number
  of survivors and of the number of rows, and X is at most Y; the percentage is the
  float that the program computes from them, between 0 and 100, printed with one
  decimal, which is the tenth nearest to that float and is at most 100.0.
\<close>

theorem survived_response:
  assumes "is_in ''survived'' (lower query)" and "df \<noteq> []"
    and "\<forall>r\<in>set df. Survived r = 0 \<or> Survived r = 1"
  shows "\<exists>X Y Z xs ys zs d ip.
          process_query df query =
            Inr (ship @ '' '' @ xs @ '' passengers survived out of '' @ ys @
                 '' ('' @ zs @ ''.'' @ [d] @ ''%)'') \<and>
          X = length (filter (\<lambda>r. Survived r = 1) df) \<and> Y = length df \<and> X \<le> Y \<and>
          decimal xs X \<and> decimal ys Y \<and>
          Z = float_round (float_round (float_of_int (int X) / float_of_int (int Y)) * 100) \<and>
          0 \<le> Z \<and> Z \<le> 100 \<and>
          decimal zs ip \<and> is_digit d \<and>
          int (10 * ip + digit_value d) = round_half_even (Z * 10) \<and>
          10 * ip + digit_value d \<le> 1000 \<and>
          \<bar>(of_nat ip + of_nat (digit_value d) / 10) - Z\<bar> \<le> 1 / 20"
proof -
  define X where "X = length (filter (\<lambda>r. Survived r = 1) df)"
  define Y where "Y = length df"
  define Z where "Z = float_round (float_round (float_of_int (int X) / float_of_int (int Y)) * 100)"
  have Y: "0 < Y" using assms(2) by (simp add: Y_def)
  have sX: "sum_list (map Survived df) = int X"
    using sum_flags_count [OF assms(3)] by (simp add: X_def)
  have XY: "X \<le> Y" by (simp add: X_def Y_def)
  have Z: "0 \<le> Z" "Z \<le> 100"
    using float_percentage_bounds [OF XY Y] by (simp_all add: Z_def float_of_int_def)
  from format_fixed_1 [OF Z] obtain ip d0 where
    f: "format_fixed 1 (Some Z) = str_nat ip @ ''.'' @ [digit d0]" and d0: "d0 < 10"
    and r: "int (10 * ip + d0) = round_half_even (Z * 10)" and le: "10 * ip + d0 \<le> 1000"
    by blast
  have dv: "digit_value (digit d0) = d0" using d0 by (rule digit_value_digit)
  have "process_query df query = Inr (survival_text (int X) (int Y))"
    using assms(1) Y by (simp add: process_query_def process_query_try_def Let_def sX Y_def)
  moreover have "survival_text (int X) (int Y) =
      ship @ '' '' @ str_nat X @ '' passengers survived out of '' @ str_nat Y @
        '' ('' @ format_fixed 1 (Some Z) @ ''%)''"
    unfolding survival_text_def str_int_nat Z_def ..
  ultimately have p: "process_query df query =
            Inr (ship @ '' '' @ str_nat X @ '' passengers survived out of '' @ str_nat Y @
                 '' ('' @ str_nat ip @ ''.'' @ [digit d0] @ ''%)'')"
    unfolding f by simp
  have "\<bar>of_int (round_half_even (Z * 10)) - Z * 10\<bar> \<le> 1 / 2" by (rule round_half_even_near)
  then have "\<bar>of_int (int (10 * ip + d0)) - Z * 10\<bar> \<le> 1 / 2" by (simp only: r)
  moreover have "of_int (int (10 * ip + d0)) - Z * 10 =
      10 * ((of_nat ip + of_nat d0 / 10) - Z)" by (simp add: algebra_simps)
  ultimately have "\<bar>10 * ((of_nat ip + of_nat d0 / 10) - Z)\<bar> \<le> 1 / 2" by (simp only:)
  then have "10 * \<bar>(of_nat ip + of_nat d0 / 10) - Z\<bar> \<le> 1 / 2" by (simp only: abs_mult)
  then have near: "\<bar>(of_nat ip + of_nat d0 / 10) - Z\<bar> \<le> 1 / 20"
  proof -
    fix t :: rat
    have "10 * t \<le> 1 / 2 \<Longrightarrow> t \<le> 1 / 20" for t :: rat by linarith
    then show "10 * \<bar>(of_nat ip + of_nat d0 / 10) - Z\<bar> \<le> 1 / 2 \<Longrightarrow>
      \<bar>(of_nat ip + of_nat d0 / 10) - Z\<bar> \<le> 1 / 20" by blast
  qed
  have r': "int (10 * ip + digit_value (digit d0)) = round_half_even (Z * 10)"
    and le': "10 * ip + digit_value (digit d0) \<le> 1000"
    and near': "\<bar>(of_nat ip + of_nat (digit_value (digit d0)) / 10) - Z\<bar> \<le> 1 / 20"
    using r le near by (simp_all only: dv)
  show ?thesis
    by (rule exI [of _ X], rule exI [of _ Y], rule exI [of _ Z], rule exI [of _ "str_nat X"],
        rule exI [of _ "str_nat Y"], rule exI [of _ "str_nat ip"], rule exI [of _ "digit d0"],
        rule exI [of _ ip])
      (intro conjI p X_def Y_def XY Z_def Z decimal_str_nat digit_is_digit [OF d0] r' le' near')
qed

text \<open>
  A frame of 80 rows with 23 survivors satisfies the hypotheses of C4. The quotient
  23 / 80 is not a float, and the percentage that is printed is 28.7.
\<close>

theorem survived_response_witness:
  "is_in ''survived'' (lower survived_query) \<and> ratio_df \<noteq> [] \<and>
   list_all (\<lambda>r. Survived r = 0 \<or> Survived r = 1) ratio_df \<and>
   process_query ratio_df survived_query =
     Inr (ship @ '' 23 passengers survived out of 80 (28.7%)'') \<and>
   (\<exists>X Y Z xs ys zs d ip.
          process_query ratio_df survived_query =
            Inr (ship @ '' '' @ xs @ '' passengers survived out of '' @ ys @
                 '' ('' @ zs @ ''.'' @ [d] @ ''%)'') \<and>
          X = length (filter (\<lambda>r. Survived r = 1) ratio_df) \<and> Y = length ratio_df \<and>
          X \<le> Y \<and> decimal xs X \<and> decimal ys Y \<and>
          Z = float_round (float_round (float_of_int (int X) / float_of_int (int Y)) * 100) \<and>
          0 \<le> Z \<and> Z \<le> 100 \<and>
          decimal zs ip \<and> is_digit d \<and>
          int (10 * ip + digit_value d) = round_half_even (Z * 10) \<and>
          10 * ip + digit_value d \<le> 1000 \<and>
          \<bar>(of_nat ip + of_nat (digit_value d) / 10) - Z\<bar> \<le> 1 / 20)"
proof -
  have h1: "is_in ''survived'' (lower survived_query)" by code_simp
  have h2: "ratio_df \<noteq> []" by code_simp
  have h3: "\<forall>r\<in>set ratio_df. Survived r = 0 \<or> Survived r = 1" by code_simp
  have e: "process_query ratio_df survived_query =
     Inr (ship @ '' 23 passengers survived out of 80 (28.7%)'')" by code_simp
  from survived_response [OF h1 h2 h3] h1 h2 h3 e show ?thesis
    unfolding list_all_iff by (intro conjI)
qed

lemma survived_sample:
  "process_query sample_df survived_query =
     Inr (ship @ '' 3 passengers survived out of 6 (50.0%)'')"
  by code_simp

subsection \<open>Exceptions inside the responder and the builder\<close>

text \<open>
  Claim C7: for every frame and every query, \<open>process_query\<close> and
  \<open>create_visualization\<close> return a value and do not raise: an exception of the body
  of \<open>process_query\<close> becomes the apology text, an exception of the body of
  \<open>create_visualization\<close> becomes the result \<open>None\<close>, and \<open>main\<close> gets a response
  for the query.
\<close>

theorem responses_never_raise:
  "(\<exists>response. process_query df query = Inr response) \<and>
   (\<forall>e. process_query_try df query = Inl e \<longrightarrow> process_query df query = Inr apology_text) \<and>
   (\<exists>fig. create_visualization df query = Inr fig) \<and>
   (\<forall>e. create_visualization_try df (lower query) = Inl e \<longrightarrow>
        create_visualization df query = Inr None) \<and>
   (\<exists>response fig. main_query df query = Inr (response, fig))"
proof (intro conjI)
  show p: "\<exists>response. process_query df query = Inr response"
    by (cases "process_query_try df query") (simp_all add: process_query_def)
  show c: "\<exists>fig. create_visualization df query = Inr fig"
    by (cases "create_visualization_try df (lower query)")
      (simp_all add: create_visualization_def)
  show "\<forall>e. process_query_try df query = Inl e \<longrightarrow> process_query df query = Inr apology_text"
    by (simp add: process_query_def)
  show "\<forall>e. create_visualization_try df (lower query) = Inl e \<longrightarrow>
        create_visualization df query = Inr None"
    by (simp add: create_visualization_def)
  from p c show "\<exists>response fig. main_query df query = Inr (response, fig)"
    by (auto simp: main_query_def)
qed

text \<open>
  On the frame without rows both bodies raise for a query that asks for the survivors
  and for a pie chart of the classes, and the caller gets the apology and no chart.
\<close>

theorem responses_never_raise_witness:
  "process_query_try [] pie_survived_query = Inl ZeroDivisionError \<and>
   process_query [] pie_survived_query = Inr apology_text \<and>
   create_visualization_try [] (lower pie_survived_query) = Inl same_length_error \<and>
   create_visualization [] pie_survived_query = Inr None \<and>
   main_query [] pie_survived_query = Inr (apology_text, None)"
proof -
  have h1: "process_query_try [] pie_survived_query = Inl ZeroDivisionError" by code_simp
  have h2: "create_visualization_try [] (lower pie_survived_query) = Inl same_length_error"
    by code_simp
  have h3: "any_in viz_terms (lower pie_survived_query)" by code_simp
  from responses_never_raise [of "[]" pie_survived_query] h1 h2
  have "process_query [] pie_survived_query = Inr apology_text"
    and "create_visualization [] pie_survived_query = Inr None" by blast+
  with h1 h2 h3 show ?thesis by (simp add: main_query_def)
qed

subsection \<open>Charts by class on fewer than three classes\<close>

lemma length_unique: "length (unique xs) = card (set xs)"
proof -
  have "distinct (unique xs)" "set (unique xs) = set xs" by (simp_all add: unique_def)
  then show ?thesis by (metis distinct_card)
qed

lemma length_value_counts: "length (value_counts xs) = card (set xs)"
  by (simp add: value_counts_def length_unique)

lemma length_groupby_mean: "length (groupby_mean key col df) = card (set (map key df))"
  by (simp add: groupby_mean_def length_unique)

text \<open>
  Claim C9: on a frame with fewer than three distinct passenger classes, a query that
  reaches the rule of the survival rate by class or the rule of the pie chart of the
  classes makes plotly raise, because the three labels First, Second, Third do not
  match the number of aggregated values; the exception is caught and the builder
  returns \<open>None\<close>.
\<close>

theorem class_charts_need_three_classes:
  assumes "card (set (map Pclass df)) < 3"
    and "\<not> is_in ''age distribution'' (lower query)"
    and "is_in ''survival rate by class'' (lower query) \<or>
         is_in ''pie chart'' (lower query) \<and> is_in ''class'' (lower query)"
  shows "create_visualization_try df (lower query) = Inl same_length_error \<and>
         create_visualization df query = Inr None"
proof -
  have "create_visualization_try df (lower query) = Inl same_length_error"
    using assms
    by (auto simp: create_visualization_try_def px_bar_def px_pie_def some_figure_def Let_def
        length_groupby_mean length_value_counts simp del: set_map)
  then show ?thesis by (simp add: create_visualization_def)
qed


text \<open>Both rules on the example frame without its second-class passenger.\<close>

theorem class_charts_need_three_classes_witness:
  "card (set (map Pclass two_class_df)) < 3 \<and>
   create_visualization_try two_class_df (lower class_rate_query) = Inl same_length_error \<and>
   create_visualization two_class_df class_rate_query = Inr None \<and>
   create_visualization_try two_class_df (lower pie_query) = Inl same_length_error \<and>
   create_visualization two_class_df pie_query = Inr None"
proof -
  have h1: "card (set (map Pclass two_class_df)) < 3" by code_simp
  have h2: "\<not> is_in ''age distribution'' (lower class_rate_query)"
    "\<not> is_in ''age distribution'' (lower pie_query)" by code_simp+
  have h3: "is_in ''survival rate by class'' (lower class_rate_query)"
    "is_in ''pie chart'' (lower pie_query) \<and> is_in ''class'' (lower pie_query)" by code_simp+
  from class_charts_need_three_classes [OF h1 h2(1)] h3(1)
    class_charts_need_three_classes [OF h1 h2(2)] h3(2) h1
  show ?thesis by blast
qed

subsection \<open>The aggregation \<open>value_counts\<close>\<close>

lemma unique_distinct: "distinct (unique xs)"
  by (simp add: unique_def)

lemma unique_set: "set (unique xs) = set xs"
  by (simp add: unique_def)

lemma distinct_map_fst_sort_key:
  "distinct (map fst (sort_key f l)) = distinct (map fst l)"
  by (simp add: distinct_map)

lemma value_counts_set:
  "set (value_counts xs) = (\<lambda>k. (k, count_list xs k)) ` set xs"
  by (simp add: value_counts_def unique_set)

lemma value_counts_keys: "set (map fst (value_counts xs)) = set xs"
  by (force simp: value_counts_set)

lemma value_counts_distinct: "distinct (map fst (value_counts xs))"
  by (simp add: value_counts_def distinct_map_fst_sort_key comp_def unique_distinct)

lemma value_counts_sum: "sum_list (map snd (value_counts xs)) = length xs"
proof -
  let ?l = "map (\<lambda>k. (k, count_list xs k)) (unique xs)"
  have d: "distinct ?l" by (simp add: distinct_map unique_distinct inj_on_def)
  then have "sum_list (map snd (value_counts xs)) = sum snd (set (value_counts xs))"
    by (simp add: value_counts_def sum_list_distinct_conv_sum_set)
  also have "\<dots> = sum snd (set ?l)" by (simp add: value_counts_def)
  also have "\<dots> = sum_list (map snd ?l)"
    by (rule sum_list_distinct_conv_sum_set [OF d, symmetric])
  also have "\<dots> = sum_list (map (count_list xs) (unique xs))" by (simp add: comp_def)
  also have "\<dots> = sum (count_list xs) (set xs)"
    using unique_distinct [of xs] by (simp add: sum_list_distinct_conv_sum_set unique_set)
  also have "\<dots> = length xs" by (simp add: sum_count_set)
  finally show ?thesis .
qed

lemma value_counts_descending: "sorted_wrt (\<lambda>a b. snd b \<le> snd a) (value_counts xs)"
proof -
  have "sorted (map (\<lambda>p. - int (snd p)) (value_counts xs))"
    by (simp add: value_counts_def)
  then show ?thesis by (simp add: sorted_map)
qed

lemma count_list_map: "count_list (map f xs) k = length (filter (\<lambda>x. f x = k) xs)"
  by (induction xs) simp_all

lemma dropna_set: "set (dropna xs) = {x. Some x \<in> set xs}"
  by (induction xs rule: dropna.induct) auto

lemma count_list_dropna: "count_list (dropna xs) k = count_list xs (Some k)"
  by (induction xs rule: dropna.induct) auto

subsection \<open>The pie chart of the classes\<close>

text \<open>
  What the rule of the pie chart returns: the counts of the classes in the order of
  \<open>value_counts\<close>, the most frequent class first, under the three fixed labels.
\<close>

lemma pie_slices:
  assumes "is_in ''pie chart'' (lower query)" and "is_in ''class'' (lower query)"
    and "\<not> is_in ''age distribution'' (lower query)"
    and "\<not> is_in ''survival rate by class'' (lower query)"
    and "card (set (map Pclass df)) = 3"
  shows "create_visualization df query =
           Inr (Some (Pie (map snd (value_counts (map Pclass df)))
                      [''First'', ''Second'', ''Third''] ''Distribution of Passenger Classes''))"
    and "sorted_wrt (\<lambda>a b. snd b \<le> snd a) (value_counts (map Pclass df))"
    and "sum_list (map snd (value_counts (map Pclass df))) = length df"
proof -
  have "length (value_counts (map Pclass df)) = 3"
    using assms(5) by (simp add: length_value_counts del: set_map)
  then show "create_visualization df query =
           Inr (Some (Pie (map snd (value_counts (map Pclass df)))
                      [''First'', ''Second'', ''Third''] ''Distribution of Passenger Classes''))"
    using assms(1-4)
    by (simp add: create_visualization_def create_visualization_try_def px_pie_def
        some_figure_def Let_def)
  show "sorted_wrt (\<lambda>a b. snd b \<le> snd a) (value_counts (map Pclass df))"
    by (rule value_counts_descending)
  show "sum_list (map snd (value_counts (map Pclass df))) = length df"
    by (simp add: value_counts_sum)
qed

text \<open>
  Claim C2 against the program, on the example frame and the example query "Create a pie
  chart of passenger classes". The frame has 2 passengers of the first class, 1 of the
  second and 3 of the third. The pie chart has the slices First, Second, Third with the
  values 3, 2, 1: the slice First carries the count of the third class. The responder,
  which sorts the same counts by class before it reads them, prints 2, 1 and 3 for the
  first, second and third class.
\<close>

theorem class_pie_chart_mislabelled:
  "create_visualization sample_df pie_query =
     Inr (Some (Pie [3, 2, 1] [''First'', ''Second'', ''Third'']
                ''Distribution of Passenger Classes'')) \<and>
   length (filter (\<lambda>r. Pclass r = 1) sample_df) = 2 \<and>
   length (filter (\<lambda>r. Pclass r = 2) sample_df) = 1 \<and>
   length (filter (\<lambda>r. Pclass r = 3) sample_df) = 3 \<and>
   process_query sample_df class_query =
     Inr (ticket @ '' Passenger class distribution:'' @ nl @ ''First Class: 2'' @ nl @
          ''Second Class: 1'' @ nl @ ''Third Class: 3'')"
  by code_simp

subsection \<open>The embarkation ports\<close>

text \<open>
  Claim C8, as the program has it: for a query that reaches the rule of the ports, the
  response is the headline and one line for each distinct port of the frame, with the
  name Southampton, Cherbourg or Queenstown for the codes S, C and Q, any other code as
  it is, and the number of passengers of the port; the lines are in the order of
  \<open>value_counts\<close>, by descending number of passengers.
\<close>

theorem port_breakdown:
  assumes "\<not> is_in ''survived'' (lower query)" and "\<not> is_in ''average age'' (lower query)"
    and "\<not> (is_in ''male'' (lower query) \<or> is_in ''female'' (lower query)
            \<or> is_in ''gender'' (lower query))"
    and "\<not> (is_in ''class'' (lower query) \<and> \<not> any_in chart_terms (lower query))"
    and "is_in ''embarked'' (lower query) \<or> is_in ''port'' (lower query)"
  shows "\<exists>stats.
           process_query df query =
             Inr (ship @ '' Embarkation ports:'' @ nl @ concat (map port_line stats)) \<and>
           distinct (map fst stats) \<and>
           set (map fst stats) = {p. Some p \<in> set (map Embarked df)} \<and>
           (\<forall>(p, n)\<in>set stats. n = length (filter (\<lambda>r. Embarked r = Some p) df)) \<and>
           sorted_wrt (\<lambda>a b. snd b \<le> snd a) stats \<and>
           (\<forall>(p, n)\<in>set stats.
              port_line (p, n) =
                (if p = ''S'' then ''Southampton'' else if p = ''C'' then ''Cherbourg''
                 else if p = ''Q'' then ''Queenstown'' else p) @
                '': '' @ str_nat n @ '' passengers'' @ nl)"
proof (intro exI conjI)
  let ?s = "value_counts (dropna (map Embarked df))"
  show "process_query df query =
             Inr (ship @ '' Embarkation ports:'' @ nl @ concat (map port_line ?s))"
    using assms
    by (auto simp: process_query_def process_query_try_def Let_def port_text_concat)
  show "distinct (map fst ?s)" by (rule value_counts_distinct)
  show "set (map fst ?s) = {p. Some p \<in> set (map Embarked df)}"
    by (simp only: value_counts_keys dropna_set)
  show "\<forall>(p, n)\<in>set ?s. n = length (filter (\<lambda>r. Embarked r = Some p) df)"
    by (auto simp: value_counts_set count_list_dropna count_list_map)
  show "sorted_wrt (\<lambda>a b. snd b \<le> snd a) ?s" by (rule value_counts_descending)
  show "\<forall>(p, n)\<in>set ?s.
              port_line (p, n) =
                (if p = ''S'' then ''Southampton'' else if p = ''C'' then ''Cherbourg''
                 else if p = ''Q'' then ''Queenstown'' else p) @
                '': '' @ str_nat n @ '' passengers'' @ nl"
    by (simp add: port_line_def get_def port_names_def split: prod.splits)
qed

text \<open>The example frame and the example query satisfy the hypotheses of C8.\<close>

theorem port_breakdown_witness:
  "\<not> is_in ''survived'' (lower port_query) \<and> \<not> is_in ''average age'' (lower port_query) \<and>
   \<not> (is_in ''male'' (lower port_query) \<or> is_in ''female'' (lower port_query)
            \<or> is_in ''gender'' (lower port_query)) \<and>
   \<not> (is_in ''class'' (lower port_query) \<and> \<not> any_in chart_terms (lower port_query)) \<and>
   is_in ''embarked'' (lower port_query) \<and>
   (\<exists>stats.
           process_query sample_df port_query =
             Inr (ship @ '' Embarkation ports:'' @ nl @ concat (map port_line stats)) \<and>
           distinct (map fst stats) \<and>
           set (map fst stats) = {p. Some p \<in> set (map Embarked sample_df)} \<and>
           list_all (\<lambda>(p, n). n = length (filter (\<lambda>r. Embarked r = Some p) sample_df)) stats \<and>
           sorted_wrt (\<lambda>a b. snd b \<le> snd a) stats)"
proof -
  have h: "\<not> is_in ''survived'' (lower port_query)"
    "\<not> is_in ''average age'' (lower port_query)"
    "\<not> (is_in ''male'' (lower port_query) \<or> is_in ''female'' (lower port_query)
            \<or> is_in ''gender'' (lower port_query))"
    "\<not> (is_in ''class'' (lower port_query) \<and> \<not> any_in chart_terms (lower port_query))"
    by code_simp+
  have e: "is_in ''embarked'' (lower port_query)" by code_simp
  then have "is_in ''embarked'' (lower port_query) \<or> is_in ''port'' (lower port_query)" ..
  from port_breakdown [OF h this, of sample_df] h e show ?thesis
    unfolding list_all_iff by blast
qed

text \<open>
  Claim C8 as it is stated fails on the example frame: the ports are first seen in the
  order Q, C, S, and the lines are in the order C, S, Q of their counts.
\<close>

theorem port_breakdown_counterexample:
  "process_query sample_df port_query =
     Inr (ship @ '' Embarkation ports:'' @ nl @ ''Cherbourg: 3 passengers'' @ nl @
          ''Southampton: 2 passengers'' @ nl @ ''Queenstown: 1 passengers'' @ nl) \<and>
   unique (dropna (map Embarked sample_df)) = [''Q'', ''C'', ''S'']"
  by code_simp

subsection \<open>The preprocessor, case by case\<close>

lemma quantiles_4: "map (\<lambda>i. of_nat i / of_nat 4) [0..<4 + 1] = [0, 1 / 4, 1 / 2, 3 / 4, 1 :: rat]"
  by code_simp

lemma fills_simps:
  "map Fare (fill_age df) = map Fare df"
  "map Embarked (fill_age df) = map Embarked df"
  "map Age (fill_embarked m df) = map Age df"
  "map Fare (fill_embarked m df) = map Fare df"
  "map Age (fill_fare df) = map Age df"
  "map Embarked (fill_fare df) = map Embarked df"
  "map Fare (fill_fare df) = map (fillna (median (map Fare df))) (map Fare df)"
  by (simp_all add: fill_age_def fill_embarked_def fill_fare_def)

lemma value_counts_Nil: "value_counts xs = [] \<longleftrightarrow> xs = []"
  using length_value_counts [of xs] by (metis card_0_eq List.finite_set length_0_conv set_empty)

lemma mode_Nil: "mode xs = [] \<longleftrightarrow> xs = []"
proof (cases "value_counts xs")
  case Nil
  then have "xs = []" using value_counts_Nil [of xs] by simp
  then show ?thesis using Nil by (simp add: mode_def)
next
  case (Cons p ps)
  then have "xs \<noteq> []" using value_counts_Nil [of xs] by simp
  moreover have "fst p \<in> set (mode xs)" using Cons by (simp add: mode_def set_insort_key)
  ultimately show ?thesis by auto
qed


lemma qcut_4:
  "qcut xs 4 labels =
     (if distinct (map (quantile (dropna xs)) [0, 1 / 4, 1 / 2, 3 / 4, 1])
      then Inr (map (bins_to_cuts True
                  (dropna (map (quantile (dropna xs)) [0, 1 / 4, 1 / 2, 3 / 4, 1])) labels) xs)
      else Inl unique_error)"
proof -
  define bins where "bins = map (quantile (dropna xs)) [0, 1 / 4, 1 / 2, 3 / 4, 1]"
  have len: "length bins = 5" by (simp add: bins_def)
  have "length (unique bins) < length bins \<longleftrightarrow> \<not> distinct bins"
    unfolding length_unique using card_distinct [of bins] distinct_card [of bins]
      card_length [of bins] by linarith
  then have "qcut xs 4 labels =
     (if distinct bins then Inr (map (bins_to_cuts True (dropna bins) labels) xs)
      else Inl unique_error)"
    unfolding qcut_def quantiles_4 Let_def bins_def [symmetric] using len by simp
  then show ?thesis by (simp only: bins_def)
qed

lemma sort_Nil: "sort_key f xs = [] \<longleftrightarrow> xs = []"
  by (metis length_sort length_0_conv)

lemma dropna_Nil: "dropna xs = [] \<longleftrightarrow> (\<forall>x\<in>set xs. x = None)"
  by (induction xs rule: dropna.induct) auto

lemma median_None: "median xs = None \<longleftrightarrow> dropna xs = []"
  unfolding median_def Let_def
  by (simp only: length_0_conv sort_Nil length_sort split: if_splits) auto

lemma fill_fare_Some:
  assumes "dropna (map Fare (fill_fare d)) \<noteq> []" and "p \<in> set (fill_fare d)"
  shows "\<exists>x. Fare p = Some x \<and> x \<in> set (dropna (map Fare (fill_fare d)))"
proof -
  have "median (map Fare d) \<noteq> None"
  proof
    assume none: "median (map Fare d) = None"
    then have "\<forall>x\<in>set (map Fare d). x = None" by (simp only: median_None dropna_Nil)
    then have "\<forall>x\<in>set (map Fare (fill_fare d)). x = None"
      using none by (auto simp: fill_fare_def fillna_def)
    then show False using assms(1) by (simp only: dropna_Nil)
  qed
  then obtain m where "median (map Fare d) = Some m" by blast
  then obtain x where x: "Fare p = Some x"
    using assms(2) by (auto simp: fill_fare_def fillna_def split: option.splits)
  then have "Some x \<in> set (map Fare (fill_fare d))" using assms(2) by force
  then show ?thesis using x by (simp add: dropna_set)
qed

lemma quantile_Some: "xs \<noteq> [] \<Longrightarrow> \<exists>v. quantile xs q = Some v"
  by (simp add: quantile_def Let_def sort_Nil)

lemma quantile_0: "xs \<noteq> [] \<Longrightarrow> quantile xs 0 = Some (sort xs ! 0)"
  by (simp add: quantile_def Let_def sort_Nil)

lemma quantile_1: "xs \<noteq> [] \<Longrightarrow> quantile xs 1 = Some (sort xs ! (length xs - 1))"
  by (simp add: quantile_def Let_def sort_Nil)

lemma sort_bounds:
  fixes x :: rat
  assumes "x \<in> set xs"
  shows "sort xs ! 0 \<le> x \<and> x \<le> sort xs ! (length xs - 1)"
proof -
  from assms have "x \<in> set (sort xs)" by simp
  then obtain i where i: "i < length (sort xs)" "sort xs ! i = x"
    by (metis in_set_conv_nth)
  have "sort xs ! 0 \<le> sort xs ! i" using i(1) by (intro sorted_nth_mono) simp_all
  moreover have "sort xs ! i \<le> sort xs ! (length xs - 1)"
    using i(1) by (intro sorted_nth_mono) simp_all
  ultimately show ?thesis using i(2) by simp
qed

lemma fare_category_total:
  assumes "x \<in> set vs"
  shows "bins_to_cuts True (dropna (map (quantile vs) [0, 1 / 4, 1 / 2, 3 / 4, 1]))
           fare_labels (Some x) \<in> Some ` set fare_labels"
proof -
  from assms have ne: "vs \<noteq> []" by auto
  obtain q1 q2 q3 where q: "quantile vs (1 / 4) = Some q1" "quantile vs (1 / 2) = Some q2"
    "quantile vs (3 / 4) = Some q3"
    using quantile_Some [OF ne] by meson
  define q0 q4 where "q0 = sort vs ! 0" and "q4 = sort vs ! (length vs - 1)"
  have b: "q0 \<le> x" "x \<le> q4" using sort_bounds [OF assms] by (simp_all add: q0_def q4_def)
  have "dropna (map (quantile vs) [0, 1 / 4, 1 / 2, 3 / 4, 1]) = [q0, q1, q2, q3, q4]"
    using q quantile_0 [OF ne] quantile_1 [OF ne] by (simp add: q0_def q4_def)
  then show ?thesis using b
    by (auto simp: bins_to_cuts_def searchsorted_def fare_labels_def Let_def)
qed

lemma age_group_bins:
  "bins_to_cuts False age_bins age_labels (Some a) =
     (if 0 < a \<and> a \<le> 12 then Some ''Child''
      else if 12 < a \<and> a \<le> 18 then Some ''Teen''
      else if 18 < a \<and> a \<le> 35 then Some ''Young Adult''
      else if 35 < a \<and> a \<le> 50 then Some ''Adult''
      else if 50 < a \<and> a \<le> 65 then Some ''Senior''
      else if 65 < a \<and> a \<le> 100 then Some ''Elderly''
      else None)"
  by (simp add: bins_to_cuts_def searchsorted_def age_bins_def age_labels_def)

lemma add_categories_map:
  "add_categories df (cut (map Age df) b l) (map g (map Fare df)) =
     map (\<lambda>p. add_columns p (bins_to_cuts False b l (Age p)) (g (Fare p))) df"
  by (induction df) (simp_all add: add_categories_def cut_def)

lemma case_qcut:
  "(case qcut xs 4 labels of Inl e \<Rightarrow> Inl e | Inr fare_category \<Rightarrow> Inr (f fare_category)) =
   (if distinct (map (quantile (dropna xs)) [0, 1 / 4, 1 / 2, 3 / 4, 1])
    then Inr (f (map (bins_to_cuts True
                  (dropna (map (quantile (dropna xs)) [0, 1 / 4, 1 / 2, 3 / 4, 1])) labels) xs))
    else Inl unique_error)"
  by (simp only: qcut_4 sum.case if_distrib [of "case_sum Inl (\<lambda>c. Inr (f c))"])

lemma load_no_port:
  assumes "dropna (map Embarked rows) = []"
  shows "load_and_process_data (Table cols rows) =
     (if ''Age'' \<notin> set cols then Inl (KeyError ''Age'')
      else if ''Embarked'' \<notin> set cols then Inl (KeyError ''Embarked'')
      else Inl (KeyError ''0''))"
proof -
  have "mode (dropna (map Embarked rows)) = []" using assms by (simp only: mode_Nil)
  then show ?thesis
    unfolding load_and_process_data_def read_csv_def Let_def fills_simps(2)
    by (simp only: source.case sum.case prod.case list.case)
qed

lemma load_with_port:
  assumes "dropna (map Embarked rows) \<noteq> []"
  shows "load_and_process_data (Table cols rows) =
     (if ''Age'' \<notin> set cols then Inl (KeyError ''Age'')
      else if ''Embarked'' \<notin> set cols then Inl (KeyError ''Embarked'')
      else if ''Fare'' \<notin> set cols then Inl (KeyError ''Fare'')
      else if distinct (map (quantile (dropna (map Fare
                (fill_fare (fill_embarked (hd (mode (dropna (map Embarked rows))))
                    (fill_age rows)))))) [0, 1 / 4, 1 / 2, 3 / 4, 1])
      then Inr (add_categories
                 (fill_fare (fill_embarked (hd (mode (dropna (map Embarked rows))))
                    (fill_age rows)))
                 (cut (map Age (fill_fare (fill_embarked (hd (mode (dropna (map Embarked rows))))
                    (fill_age rows)))) age_bins age_labels)
                 (map (bins_to_cuts True
                    (dropna (map (quantile (dropna (map Fare
                       (fill_fare (fill_embarked (hd (mode (dropna (map Embarked rows))))
                    (fill_age rows)))))) [0, 1 / 4, 1 / 2, 3 / 4, 1])) fare_labels)
                    (map Fare (fill_fare (fill_embarked (hd (mode (dropna (map Embarked rows))))
                    (fill_age rows))))))
      else Inl unique_error)"
proof -
  obtain m ms where m: "mode (dropna (map Embarked rows)) = m # ms"
    using assms mode_Nil [of "dropna (map Embarked rows)"] by (meson list.exhaust)
  then have hd: "hd (mode (dropna (map Embarked rows))) = m" by simp
  show ?thesis
    unfolding load_and_process_data_def read_csv_def Let_def fills_simps(2) case_qcut hd
    by (simp only: m source.case sum.case prod.case list.case)
qed

lemma load_filled:
  assumes "dropna (map Embarked rows) \<noteq> []"
  shows "load_and_process_data (Table cols rows) =
     (if ''Age'' \<notin> set cols then Inl (KeyError ''Age'')
      else if ''Embarked'' \<notin> set cols then Inl (KeyError ''Embarked'')
      else if ''Fare'' \<notin> set cols then Inl (KeyError ''Fare'')
      else if distinct (quartile_edges (map Fare (fill_missing rows)))
      then Inr (map (\<lambda>p. add_columns p (bins_to_cuts False age_bins age_labels (Age p))
                  (bins_to_cuts True (dropna (quartile_edges (map Fare (fill_missing rows))))
                     fare_labels (Fare p)))
                (fill_missing rows))
      else Inl unique_error)"
proof -
  obtain m ms where m: "mode (dropna (map Embarked rows)) = m # ms"
    using assms mode_Nil [of "dropna (map Embarked rows)"] by (meson list.exhaust)
  then have "fill_missing rows =
      fill_fare (fill_embarked (hd (mode (dropna (map Embarked rows)))) (fill_age rows))"
    by (simp add: fill_missing_def)
  then show ?thesis
    unfolding load_with_port [OF assms] quartile_edges_def add_categories_map by (simp only:)
qed

lemma quartile_edges_empty: "dropna fares = [] \<Longrightarrow> \<not> distinct (quartile_edges fares)"
  by (simp add: quartile_edges_def quantile_def)

lemma fill_missing_fares:
  assumes "dropna (map Fare (fill_missing rows)) \<noteq> []" and "p \<in> set (fill_missing rows)"
  shows "\<exists>x. Fare p = Some x \<and> x \<in> set (dropna (map Fare (fill_missing rows)))"
proof (cases "mode (dropna (map Embarked rows))")
  case Nil
  then show ?thesis using assms(2) by (simp add: fill_missing_def)
next
  case (Cons m ms)
  then have "fill_missing rows = fill_fare (fill_embarked m (fill_age rows))"
    by (simp add: fill_missing_def)
  then show ?thesis using assms fill_fare_Some by metis
qed

lemma add_columns_simps:
  "Age (add_columns p g c) = Age p" "Fare (add_columns p g c) = Fare p"
  "AgeGroup (add_columns p g c) = g" "FareCategory (add_columns p g c) = c"
  "Survived (add_columns p g c) = Survived p" "Embarked (add_columns p g c) = Embarked p"
  by (simp_all add: add_columns_def)

lemma load_Inr:
  assumes "load_and_process_data src = Inr df"
  obtains cols rows where "src = Table cols rows" and "dropna (map Embarked rows) \<noteq> []"
    and "distinct (quartile_edges (map Fare (fill_missing rows)))"
    and "df = map (\<lambda>p. add_columns p (bins_to_cuts False age_bins age_labels (Age p))
                  (bins_to_cuts True (dropna (quartile_edges (map Fare (fill_missing rows))))
                     fare_labels (Fare p)))
                (fill_missing rows)"
proof (cases src)
  case Unreachable
  then show ?thesis using assms by (simp add: load_and_process_data_def read_csv_def)
next
  case Empty_File
  then show ?thesis using assms by (simp add: load_and_process_data_def read_csv_def)
next
  case (Table cols rows)
  show ?thesis
  proof (cases "dropna (map Embarked rows) = []")
    case True
    then show ?thesis using assms Table load_no_port [OF True, of cols]
      by (simp split: if_splits)
  next
    case False
    have "load_and_process_data (Table cols rows) = Inr df" using assms Table by simp
    then have "distinct (quartile_edges (map Fare (fill_missing rows))) \<and>
      df = map (\<lambda>p. add_columns p (bins_to_cuts False age_bins age_labels (Age p))
                  (bins_to_cuts True (dropna (quartile_edges (map Fare (fill_missing rows))))
                     fare_labels (Fare p)))
                (fill_missing rows)"
      unfolding load_filled [OF False] by (simp only: split: if_splits) simp_all
    then show ?thesis using that Table False by blast
  qed
qed

lemma load_nonempty:
  assumes "load_and_process_data src = Inr df"
  shows "df \<noteq> []"
proof -
  from assms obtain cols rows where e: "dropna (map Embarked rows) \<noteq> []"
    and df: "df = map (\<lambda>p. add_columns p (bins_to_cuts False age_bins age_labels (Age p))
                  (bins_to_cuts True (dropna (quartile_edges (map Fare (fill_missing rows))))
                     fare_labels (Fare p)))
                (fill_missing rows)"
    by (rule load_Inr)
  obtain m ms where "mode (dropna (map Embarked rows)) = m # ms"
    using e mode_Nil [of "dropna (map Embarked rows)"] by (meson list.exhaust)
  then have "length (fill_missing rows) = length rows"
    by (simp add: fill_missing_def fill_fare_def fill_embarked_def fill_age_def)
  moreover have "rows \<noteq> []" using e by auto
  ultimately show ?thesis using df by auto
qed


text \<open>
  Claim C3, as the program has it: in a frame that the preprocessor returns, every row
  has a fare and exactly one fare category, the one of the bin of its fare between the
  quartile edges of the fares of the frame; and every row whose age is above 0 and at
  most 100 has exactly one age group, by the bins (0, 12], (12, 18], (18, 35], (35, 50],
  (50, 65] and (65, 100], each without its lower and with its upper bound. A row whose
  age is 0, or above 100, or missing has no age group.
\<close>

theorem categories_after_preprocessing:
  assumes "load_and_process_data src = Inr df" and "r \<in> set df"
  shows "(\<exists>x. Fare r = Some x \<and>
              FareCategory r =
                bins_to_cuts True (dropna (quartile_edges (map Fare df))) fare_labels (Some x)) \<and>
         FareCategory r \<in> Some ` set fare_labels \<and>
         AgeGroup r =
           (case Age r of
              None \<Rightarrow> None
            | Some a \<Rightarrow>
                if 0 < a \<and> a \<le> 12 then Some ''Child''
                else if 12 < a \<and> a \<le> 18 then Some ''Teen''
                else if 18 < a \<and> a \<le> 35 then Some ''Young Adult''
                else if 35 < a \<and> a \<le> 50 then Some ''Adult''
                else if 50 < a \<and> a \<le> 65 then Some ''Senior''
                else if 65 < a \<and> a \<le> 100 then Some ''Elderly''
                else None)"
proof -
  from assms(1) obtain cols rows where
    edges: "distinct (quartile_edges (map Fare (fill_missing rows)))" and
    df: "df = map (\<lambda>p. add_columns p (bins_to_cuts False age_bins age_labels (Age p))
                  (bins_to_cuts True (dropna (quartile_edges (map Fare (fill_missing rows))))
                     fare_labels (Fare p)))
                (fill_missing rows)"
    by (rule load_Inr)
  have fares: "map Fare df = map Fare (fill_missing rows)"
    by (simp add: df add_columns_simps comp_def)
  from assms(2) obtain p where p: "p \<in> set (fill_missing rows)"
    and r: "r = add_columns p (bins_to_cuts False age_bins age_labels (Age p))
                  (bins_to_cuts True (dropna (quartile_edges (map Fare df))) fare_labels (Fare p))"
    unfolding fares using df by auto
  have "dropna (map Fare (fill_missing rows)) \<noteq> []"
    using edges quartile_edges_empty by blast
  then obtain x where x: "Fare p = Some x" "x \<in> set (dropna (map Fare df))"
    using fill_missing_fares [OF _ p] fares by auto
  have age: "AgeGroup r = bins_to_cuts False age_bins age_labels (Age r)"
    by (simp add: r add_columns_simps)
  have fare: "Fare r = Some x" "FareCategory r =
      bins_to_cuts True (dropna (quartile_edges (map Fare df))) fare_labels (Some x)"
    using x(1) by (simp_all add: r add_columns_simps)
  have total: "FareCategory r \<in> Some ` set fare_labels"
    unfolding fare(2) quartile_edges_def by (rule fare_category_total [OF x(2)])
  have "AgeGroup r =
           (case Age r of
              None \<Rightarrow> None
            | Some a \<Rightarrow>
                if 0 < a \<and> a \<le> 12 then Some ''Child''
                else if 12 < a \<and> a \<le> 18 then Some ''Teen''
                else if 18 < a \<and> a \<le> 35 then Some ''Young Adult''
                else if 35 < a \<and> a \<le> 50 then Some ''Adult''
                else if 50 < a \<and> a \<le> 65 then Some ''Senior''
                else if 65 < a \<and> a \<le> 100 then Some ''Elderly''
                else None)"
  proof (cases "Age r")
    case None
    then show ?thesis by (simp add: age bins_to_cuts_def)
  next
    case (Some a)
    then show ?thesis by (simp only: age age_group_bins option.case)
  qed
  with fare total show ?thesis by blast
qed

text \<open>The example table satisfies the hypothesis of C3, and all its ages are in a bin.\<close>

theorem categories_after_preprocessing_witness:
  "load_and_process_data (Table required_columns sample_rows) = Inr sample_df \<and>
   list_all (\<lambda>r. FareCategory r \<in> Some ` set fare_labels) sample_df \<and>
   list_all (\<lambda>r. AgeGroup r \<in> Some ` set age_labels) sample_df"
proof -
  have l: "load_and_process_data (Table required_columns sample_rows) = Inr sample_df"
    by code_simp
  have "list_all (\<lambda>r. FareCategory r \<in> Some ` set fare_labels) sample_df"
    unfolding list_all_iff using categories_after_preprocessing [OF l] by blast
  moreover have "list_all (\<lambda>r. AgeGroup r \<in> Some ` set age_labels) sample_df"
    by code_simp
  ultimately show ?thesis using l by blast
qed

text \<open>
  Claim C3 as it is stated fails on a table with the ages 0 and 101: the preprocessor
  returns a frame in which these two rows have no age group.
\<close>

theorem categories_after_preprocessing_counterexample:
  "load_and_process_data (Table required_columns edge_age_rows) = Inr edge_age_df \<and>
   map Age edge_age_df = [Some 0, Some 101, Some 12, Some 100, Some 30] \<and>
   map AgeGroup edge_age_df =
     [None, None, Some ''Child'', Some ''Elderly'', Some ''Young Adult'']"
  by code_simp



end
